theory Spec2Isabelle
  imports Complex_Main
begin

section \<open>Journey analysis: a model of \<open>newjourney1.py\<close>\<close>

text \<open>
  The program reads tab-separated GPS samples from a text, builds a table with one row
  per line, derives the columns \<open>duration_minutes\<close>, \<open>distance_km\<close>,
  \<open>cumulative_distance\<close> and \<open>speed_kmh\<close>, and computes a few summaries in \<open>main\<close>.

  Conventions of the model.
  \<^item> A Python exception is a value \<open>Inl e\<close> of the result type \<open>error + 'a\<close>.
  \<^item> A Python \<open>float\<close> is a \<open>pyfloat\<close>: a finite value (a real number), an infinity or
    NaN. Arithmetic on finite values is exact: rounding to binary64 and the sign of zero
    are not modelled. A column whose entries are always finite is a \<open>real list\<close>.
  \<^item> A Python \<open>str\<close> is the list of its code points, a \<open>pystr\<close>; whitespace is what
    \<open>str.isspace\<close> accepts.
  \<^item> A timestamp is a \<open>datetime\<close> by its fields; the table stores it without loss (the
    bounds of the table's timestamp type are not modelled).
  \<^item> The three library calls the program makes on its input (\<open>datetime.strptime\<close>,
    \<open>float\<close>, \<open>geopy.distance.geodesic\<close>) are parameters, collected in a record
    \<open>library\<close>. Each returns \<open>None\<close> where the library raises \<open>ValueError\<close>.
\<close>

subsection \<open>Errors and floats\<close>

text \<open>
  \<open>IndexError\<close>, \<open>KeyError\<close> and \<open>ValueError\<close> are the Python exceptions the program can
  raise. The last three constructors are the error kinds named by the specification;
  no definition below constructs them.
\<close>

datatype error =
    IndexError
  | KeyError
  | ValueError
  | MalformedRecordError
  | EmptyJourneyError
  | DegenerateRouteError

datatype pyfloat = Fin real | PInf | NInf | NaN

text \<open>True division of two floats as numpy does it on \<open>float64\<close> scalars: a zero
  divisor raises nothing, the result is NaN or an infinity.\<close>

fun fdiv :: "pyfloat \<Rightarrow> pyfloat \<Rightarrow> pyfloat" where
  "fdiv NaN _ = NaN"
| "fdiv _ NaN = NaN"
| "fdiv (Fin a) (Fin b) =
     (if b = 0 then (if a = 0 then NaN else if 0 < a then PInf else NInf)
      else Fin (a / b))"
| "fdiv (Fin a) PInf = Fin 0"
| "fdiv (Fin a) NInf = Fin 0"
| "fdiv PInf (Fin b) = (if 0 \<le> b then PInf else NInf)"
| "fdiv NInf (Fin b) = (if 0 \<le> b then NInf else PInf)"
| "fdiv PInf PInf = NaN"
| "fdiv PInf NInf = NaN"
| "fdiv NInf PInf = NaN"
| "fdiv NInf NInf = NaN"

fun fadd :: "pyfloat \<Rightarrow> pyfloat \<Rightarrow> pyfloat" where
  "fadd NaN _ = NaN"
| "fadd _ NaN = NaN"
| "fadd (Fin a) (Fin b) = Fin (a + b)"
| "fadd (Fin a) PInf = PInf"
| "fadd (Fin a) NInf = NInf"
| "fadd PInf (Fin b) = PInf"
| "fadd NInf (Fin b) = NInf"
| "fadd PInf PInf = PInf"
| "fadd NInf NInf = NInf"
| "fadd PInf NInf = NaN"
| "fadd NInf PInf = NaN"

fun fneg :: "pyfloat \<Rightarrow> pyfloat" where
  "fneg (Fin a) = Fin (- a)"
| "fneg PInf = NInf"
| "fneg NInf = PInf"
| "fneg NaN = NaN"

definition fsub :: "pyfloat \<Rightarrow> pyfloat \<Rightarrow> pyfloat" where
  "fsub a b = fadd a (fneg b)"

text \<open>The comparison \<open>a < b\<close> on floats: false whenever an operand is NaN.\<close>

fun flt :: "pyfloat \<Rightarrow> pyfloat \<Rightarrow> bool" where
  "flt NaN _ = False"
| "flt _ NaN = False"
| "flt (Fin a) (Fin b) = (a < b)"
| "flt (Fin a) PInf = True"
| "flt (Fin a) NInf = False"
| "flt PInf _ = False"
| "flt NInf NInf = False"
| "flt NInf _ = True"

definition fgt :: "pyfloat \<Rightarrow> pyfloat \<Rightarrow> bool" where
  "fgt a b = flt b a"

definition is_finite :: "pyfloat \<Rightarrow> bool" where
  "is_finite x = (case x of Fin _ \<Rightarrow> True | _ \<Rightarrow> False)"

subsection \<open>Strings: \<open>str.strip\<close> and \<open>str.split\<close>\<close>

type_synonym codepoint = int
type_synonym pystr = "codepoint list"

text \<open>\<open>ord c\<close> is the code point of an ASCII character and \<open>str s\<close> the Python string
  with the characters of an ASCII literal.\<close>

definition ord :: "char \<Rightarrow> codepoint" where
  "ord c = of_char c"

definition str :: "string \<Rightarrow> pystr" where
  "str s = map ord s"

text \<open>The characters for which \<open>str.isspace\<close> is true; \<open>str.strip()\<close> removes them
  from both ends.\<close>

definition is_space :: "codepoint \<Rightarrow> bool" where
  "is_space c \<longleftrightarrow>
     (0x09 \<le> c \<and> c \<le> 0x0D) \<or> (0x1C \<le> c \<and> c \<le> 0x20) \<or> c = 0x85 \<or> c = 0xA0
     \<or> c = 0x1680 \<or> (0x2000 \<le> c \<and> c \<le> 0x200A) \<or> c = 0x2028 \<or> c = 0x2029
     \<or> c = 0x202F \<or> c = 0x205F \<or> c = 0x3000"

definition strip :: "pystr \<Rightarrow> pystr" where
  "strip s = rev (dropWhile is_space (rev (dropWhile is_space s)))"

text \<open>\<open>s.split(c)\<close> for a one-character separator: the pieces between the
  separators, always at least one piece.\<close>

fun split :: "codepoint \<Rightarrow> pystr \<Rightarrow> pystr list" where
  "split c [] = [[]]"
| "split c (x # xs) =
     (if x = c then [] # split c xs
      else (case split c xs of [] \<Rightarrow> [[x]] | p # ps \<Rightarrow> (x # p) # ps))"

definition NL :: codepoint where
  "NL = 0x0A"

definition TAB :: codepoint where
  "TAB = 0x09"

subsection \<open>Timestamps\<close>

text \<open>A \<open>datetime\<close> object, by its fields.\<close>

record datetime =
  year :: int
  month :: int
  day :: int
  hour :: int
  minute :: int
  second :: int
  microsecond :: int

text \<open>The proleptic Gregorian ordinal of a date (\<open>date.toordinal\<close>), and the
  position of a datetime on the time line in microseconds; the difference of two
  timestamps is the difference of their positions.\<close>

definition is_leap :: "int \<Rightarrow> bool" where
  "is_leap y = (y mod 4 = 0 \<and> (y mod 100 \<noteq> 0 \<or> y mod 400 = 0))"

definition days_before_year :: "int \<Rightarrow> int" where
  "days_before_year y = (let z = y - 1 in z * 365 + z div 4 - z div 100 + z div 400)"

definition days_in_month :: "int \<Rightarrow> int \<Rightarrow> int" where
  "days_in_month y m =
     (if m = 2 then (if is_leap y then 29 else 28)
      else if m = 4 \<or> m = 6 \<or> m = 9 \<or> m = 11 then 30 else 31)"

definition days_before_month :: "int \<Rightarrow> int \<Rightarrow> int" where
  "days_before_month y m = (\<Sum>k \<leftarrow> [1..m - 1]. days_in_month y k)"

definition toordinal :: "datetime \<Rightarrow> int" where
  "toordinal t = days_before_year (year t) + days_before_month (year t) (month t) + day t"

definition to_us :: "datetime \<Rightarrow> int" where
  "to_us t =
     (((toordinal t * 24 + hour t) * 60 + minute t) * 60 + second t) * 1000000
       + microsecond t"

text \<open>\<open>strftime('%H:%M:%S')\<close>: three two-digit fields.\<close>

definition digit :: "int \<Rightarrow> codepoint" where
  "digit n = 48 + n mod 10"

definition two_digits :: "int \<Rightarrow> pystr" where
  "two_digits n = [digit (n div 10), digit n]"

definition strftime_HMS :: "datetime \<Rightarrow> pystr" where
  "strftime_HMS t =
     two_digits (hour t) @ str '':'' @ two_digits (minute t) @ str '':'' @ two_digits (second t)"

subsection \<open>The library\<close>

type_synonym coords = "pyfloat \<times> pyfloat"

record library =
  strptime :: "pystr \<Rightarrow> datetime option"
  to_float :: "pystr \<Rightarrow> pyfloat option"
  geodesic_km :: "coords \<Rightarrow> coords \<Rightarrow> real option"

subsection \<open>\<open>load_and_process_data\<close>: the parsing loop\<close>

text \<open>One entry of \<open>cleaned_data\<close>.\<close>

record sample =
  timestamp :: datetime
  latitude :: pyfloat
  longitude :: pyfloat
  date :: "int \<times> int \<times> int"
  time :: pystr
  hour_of :: int
  minute_of :: int

text \<open>\<open>parts[i]\<close>: an index past the end raises \<open>IndexError\<close>.\<close>

definition item :: "'a list \<Rightarrow> nat \<Rightarrow> error + 'a" where
  "item xs i = (if i < length xs then Inr (xs ! i) else Inl IndexError)"

definition lib_call :: "'a option \<Rightarrow> error + 'a" where
  "lib_call r = (case r of None \<Rightarrow> Inl ValueError | Some v \<Rightarrow> Inr v)"

text \<open>Sequencing of two steps, the first of which may raise.\<close>

definition bind :: "error + 'a \<Rightarrow> ('a \<Rightarrow> error + 'b) \<Rightarrow> error + 'b" where
  "bind r f = (case r of Inl e \<Rightarrow> Inl e | Inr v \<Rightarrow> f v)"

text \<open>The body of the loop over the lines, in the order in which the source evaluates:
  \<open>parts[1]\<close>, \<open>strptime\<close>, \<open>parts[2]\<close>, \<open>float\<close>, \<open>parts[3]\<close>, \<open>float\<close>.\<close>

definition make_record :: "datetime \<Rightarrow> pyfloat \<Rightarrow> pyfloat \<Rightarrow> sample" where
  "make_record ts lat lon =
     \<lparr> timestamp = ts, latitude = lat, longitude = lon,
       date = (year ts, month ts, day ts), time = strftime_HMS ts,
       hour_of = hour ts, minute_of = minute ts \<rparr>"

definition parse_line :: "library \<Rightarrow> pystr \<Rightarrow> error + sample" where
  "parse_line L line =
     (let parts = split TAB line in
      bind (item parts 1) (\<lambda>p1.
      bind (lib_call (strptime L p1)) (\<lambda>ts.
      bind (item parts 2) (\<lambda>p2.
      bind (lib_call (to_float L p2)) (\<lambda>lat.
      bind (item parts 3) (\<lambda>p3.
      bind (lib_call (to_float L p3)) (\<lambda>lon.
      Inr (make_record ts lat lon))))))))"

fun parse_lines :: "library \<Rightarrow> pystr list \<Rightarrow> error + sample list" where
  "parse_lines L [] = Inr []"
| "parse_lines L (l # ls) =
     bind (parse_line L l) (\<lambda>r. bind (parse_lines L ls) (\<lambda>rs. Inr (r # rs)))"

subsection \<open>\<open>load_and_process_data\<close>: the derived columns\<close>

text \<open>The table: the rows built from \<open>cleaned_data\<close> and the four derived columns.\<close>

record dataframe =
  rows :: "sample list"
  duration_minutes :: "real list"
  distance_km :: "real list"
  cumulative_distance :: "real list"
  speed_kmh :: "real list"

text \<open>\<open>Series.round(2)\<close>: scale by 100, round half to even, scale back. The tie is
  decided on the exact value; on binary64 a value may fall just beside the tie.\<close>

definition rint :: "real \<Rightarrow> int" where
  "rint x =
     (let f = \<lfloor>x\<rfloor>; d = x - of_int f in
      if d < 1 / 2 then f else if 1 / 2 < d then f + 1
      else if even f then f else f + 1)"

definition round2 :: "real \<Rightarrow> real" where
  "round2 x = of_int (rint (x * 100)) / 100"

text \<open>\<open>((df['timestamp'] - df['timestamp'].iloc[0]).dt.total_seconds() / 60).round(2)\<close>.
  A table built from an empty list has no column \<open>timestamp\<close>.\<close>

definition total_seconds :: "datetime \<Rightarrow> datetime \<Rightarrow> real" where
  "total_seconds t t0 = of_int (to_us t - to_us t0) / 1000000"

fun minutes_since :: "datetime \<Rightarrow> sample list \<Rightarrow> real list" where
  "minutes_since t0 [] = []"
| "minutes_since t0 (r # rs) =
     round2 (total_seconds (timestamp r) t0 / 60) # minutes_since t0 rs"

definition duration_column :: "sample list \<Rightarrow> error + real list" where
  "duration_column rs =
     (case rs of [] \<Rightarrow> Inl KeyError
      | r0 # _ \<Rightarrow> Inr (minutes_since (timestamp r0) rs))"

text \<open>The loop \<open>for i in range(1, len(df))\<close>: the distance from each row to the next,
  stored at the index of the later row; index 0 keeps the initial \<open>0.0\<close>.\<close>

definition coords_of :: "sample \<Rightarrow> coords" where
  "coords_of r = (latitude r, longitude r)"

fun segment_distances :: "library \<Rightarrow> sample list \<Rightarrow> error + real list" where
  "segment_distances L (r1 # r2 # rs) =
     bind (lib_call (geodesic_km L (coords_of r1) (coords_of r2))) (\<lambda>d.
     bind (segment_distances L (r2 # rs)) (\<lambda>ds. Inr (d # ds)))"
| "segment_distances L _ = Inr []"

definition distance_column :: "library \<Rightarrow> sample list \<Rightarrow> error + real list" where
  "distance_column L rs =
     (case rs of [] \<Rightarrow> Inr []
      | _ # _ \<Rightarrow> bind (segment_distances L rs) (\<lambda>ds. Inr (0 # ds)))"

text \<open>\<open>Series.cumsum()\<close>: one left-to-right accumulation.\<close>

fun cumsum_from :: "real \<Rightarrow> real list \<Rightarrow> real list" where
  "cumsum_from acc [] = []"
| "cumsum_from acc (x # xs) = (acc + x) # cumsum_from (acc + x) xs"

definition cumsum :: "real list \<Rightarrow> real list" where
  "cumsum xs = (case xs of [] \<Rightarrow> [] | x # ys \<Rightarrow> x # cumsum_from x ys)"

definition speed_column :: "real list \<Rightarrow> real list" where
  "speed_column ds = map (\<lambda>d. d / (10 / 60)) ds"

definition derive :: "library \<Rightarrow> sample list \<Rightarrow> error + dataframe" where
  "derive L rs =
     bind (duration_column rs) (\<lambda>dur.
     bind (distance_column L rs) (\<lambda>ds.
     Inr \<lparr> rows = rs, duration_minutes = dur, distance_km = ds,
           cumulative_distance = cumsum ds, speed_kmh = speed_column ds \<rparr>))"

definition load_and_process_data :: "library \<Rightarrow> pystr \<Rightarrow> error + dataframe" where
  "load_and_process_data L data_text =
     bind (parse_lines L (split NL (strip data_text))) (derive L)"

text \<open>The list \<open>lines\<close> that the loop runs over, and the list \<open>parts\<close> of a line.\<close>

definition lines :: "pystr \<Rightarrow> pystr list" where
  "lines data_text = split NL (strip data_text)"

definition parts :: "pystr \<Rightarrow> pystr list" where
  "parts line = split TAB line"

subsection \<open>\<open>main\<close>: the summaries\<close>

text \<open>\<open>Series.mean()\<close>, \<open>Series.std()\<close> (the default \<open>ddof=1\<close>) and \<open>Series.max()\<close> on a
  column of finite values. Where pandas has no value to give, it gives NaN.\<close>

definition mean :: "real list \<Rightarrow> pyfloat" where
  "mean xs = (if xs = [] then NaN else Fin (sum_list xs / real (length xs)))"

definition std :: "real list \<Rightarrow> pyfloat" where
  "std xs =
     (if length xs < 2 then NaN
      else (let m = sum_list xs / real (length xs) in
            Fin (sqrt ((\<Sum>x \<leftarrow> xs. (x - m)\<^sup>2) / real (length xs - 1)))))"

definition col_max :: "real list \<Rightarrow> pyfloat" where
  "col_max xs = (case xs of [] \<Rightarrow> NaN | x # ys \<Rightarrow> Fin (fold max ys x))"

text \<open>Speed pattern analysis (lines 106 to 114): the rows selected by each mask, by
  index, and the two counts that are written out.\<close>

definition speed_std :: "dataframe \<Rightarrow> pyfloat" where
  "speed_std df = std (speed_kmh df)"

definition high_speed_segments :: "dataframe \<Rightarrow> nat list" where
  "high_speed_segments df =
     filter (\<lambda>i. fgt (Fin (speed_kmh df ! i)) (fadd (mean (speed_kmh df)) (speed_std df)))
       [0..<length (speed_kmh df)]"

definition low_speed_segments :: "dataframe \<Rightarrow> nat list" where
  "low_speed_segments df =
     filter (\<lambda>i. flt (Fin (speed_kmh df ! i)) (fsub (mean (speed_kmh df)) (speed_std df)))
       [0..<length (speed_kmh df)]"

definition speed_pattern_counts :: "dataframe \<Rightarrow> nat \<times> nat" where
  "speed_pattern_counts df =
     (length (high_speed_segments df), length (low_speed_segments df))"

text \<open>Route efficiency analysis (lines 134 to 144): the score, and whether the advice
  "consider more direct routes" is written. \<open>iloc[0]\<close> and \<open>iloc[-1]\<close> raise
  \<open>IndexError\<close> on an empty table.\<close>

definition iloc_first :: "'a list \<Rightarrow> error + 'a" where
  "iloc_first xs = (case xs of [] \<Rightarrow> Inl IndexError | x # _ \<Rightarrow> Inr x)"

definition iloc_last :: "'a list \<Rightarrow> error + 'a" where
  "iloc_last xs = (if xs = [] then Inl IndexError else Inr (last xs))"

definition route_efficiency :: "library \<Rightarrow> dataframe \<Rightarrow> error + pyfloat" where
  "route_efficiency L df =
     bind (iloc_first (rows df)) (\<lambda>a.
     bind (iloc_last (rows df)) (\<lambda>b.
     bind (lib_call (geodesic_km L (coords_of a) (coords_of b))) (\<lambda>straight_line_distance.
     Inr (fdiv (Fin straight_line_distance) (col_max (cumulative_distance df))))))"

definition route_advice :: "pyfloat \<Rightarrow> bool" where
  "route_advice route_efficiency_score = flt route_efficiency_score (Fin (8 / 10))"

subsection \<open>A concrete library\<close>

text \<open>
  The theorems below hold for every library. To run the definitions on a concrete text,
  the following instance fixes the three calls.
  \<^item> \<open>strptime_impl\<close> follows \<open>datetime.strptime\<close> for the one format the program uses,
    \<open>%Y-%m-%d %H:%M:%S.%f\<close>: four digits of year; month, day, hour, minute and second of
    one or two digits within their ranges; one to six digits of fraction; nothing after
    them; and the date must exist.
  \<^item> \<open>float_impl\<close> follows \<open>float\<close> on a string: surrounding whitespace, a sign, then
    \<open>inf\<close>, \<open>infinity\<close>, \<open>nan\<close> or a decimal number with optional fraction and exponent.
  \<^item> Both read the ASCII digits only (the library also reads the other decimal digits
    of Unicode); every concrete text below is ASCII apart from its whitespace.
  \<^item> \<open>grid_km\<close> stands in for \<open>geodesic(...).kilometers\<close>. It makes the library's input
    checks (finite coordinates, latitude within 90 degrees) and agrees with the library
    between identical points, where the distance is 0; between different points it is
    a rough rational distance, not the ellipsoidal one.
\<close>

definition is_digit :: "codepoint \<Rightarrow> bool" where
  "is_digit c \<longleftrightarrow> 48 \<le> c \<and> c \<le> 57"

definition digit_val :: "codepoint \<Rightarrow> int" where
  "digit_val c = c - 48"

definition int_of_digits :: "pystr \<Rightarrow> int" where
  "int_of_digits ds = fold (\<lambda>c n. 10 * n + digit_val c) ds 0"

text \<open>A field of one or two digits with a value between \<open>lo\<close> and \<open>hi\<close>, followed by
  the rest of the string.\<close>

definition field12 :: "int \<Rightarrow> int \<Rightarrow> pystr \<Rightarrow> (int \<times> pystr) option" where
  "field12 lo hi s =
     (let ds = takeWhile is_digit s; v = int_of_digits ds in
      if (length ds = 1 \<or> length ds = 2) \<and> lo \<le> v \<and> v \<le> hi
      then Some (v, dropWhile is_digit s) else None)"

definition expect :: "codepoint \<Rightarrow> pystr \<Rightarrow> pystr option" where
  "expect c s = (case s of [] \<Rightarrow> None | x # xs \<Rightarrow> if x = c then Some xs else None)"

definition obind :: "'a option \<Rightarrow> ('a \<Rightarrow> 'b option) \<Rightarrow> 'b option" where
  "obind r f = (case r of None \<Rightarrow> None | Some v \<Rightarrow> f v)"

definition year_field :: "pystr \<Rightarrow> (int \<times> pystr) option" where
  "year_field s =
     (let ds = takeWhile is_digit s in
      if length ds = 4 then Some (int_of_digits ds, dropWhile is_digit s) else None)"

text \<open>The day may also be written as a space and one digit.\<close>

definition day_field :: "pystr \<Rightarrow> (int \<times> pystr) option" where
  "day_field s =
     (case s of
        c # d # rest \<Rightarrow>
          if c = ord CHR '' '' \<and> is_digit d \<and> d \<noteq> ord CHR ''0'' \<and> (rest = [] \<or> \<not> is_digit (hd rest))
          then Some (digit_val d, rest) else field12 1 31 s
      | _ \<Rightarrow> field12 1 31 s)"

definition spaces1 :: "pystr \<Rightarrow> pystr option" where
  "spaces1 s = (case s of [] \<Rightarrow> None
                | c # _ \<Rightarrow> if is_space c then Some (dropWhile is_space s) else None)"

definition fraction_field :: "pystr \<Rightarrow> int option" where
  "fraction_field s =
     (if s \<noteq> [] \<and> length s \<le> 6 \<and> list_all is_digit s
      then Some (int_of_digits s * 10 ^ (6 - length s)) else None)"

definition strptime_impl :: "pystr \<Rightarrow> datetime option" where
  "strptime_impl s =
     obind (year_field s) (\<lambda>(y, s1).
     obind (expect (ord CHR ''-'') s1) (\<lambda>s2.
     obind (field12 1 12 s2) (\<lambda>(m, s3).
     obind (expect (ord CHR ''-'') s3) (\<lambda>s4.
     obind (day_field s4) (\<lambda>(d, s5).
     obind (spaces1 s5) (\<lambda>s6.
     obind (field12 0 23 s6) (\<lambda>(h, s7).
     obind (expect (ord CHR '':'') s7) (\<lambda>s8.
     obind (field12 0 59 s8) (\<lambda>(mi, s9).
     obind (expect (ord CHR '':'') s9) (\<lambda>s10.
     obind (field12 0 59 s10) (\<lambda>(sec, s11).
     obind (expect (ord CHR ''.'') s11) (\<lambda>s12.
     obind (fraction_field s12) (\<lambda>us.
     if 1 \<le> y \<and> d \<le> days_in_month y m
     then Some \<lparr> year = y, month = m, day = d, hour = h, minute = mi,
                 second = sec, microsecond = us \<rparr>
     else None)))))))))))))"

text \<open>Digits with single underscores between them, as Python's numeric literals in
  strings allow.\<close>

fun digitpart :: "pystr \<Rightarrow> pystr \<times> pystr" where
  "digitpart (c # d # s) =
     (if is_digit c \<and> is_digit d then (let (ds, r) = digitpart (d # s) in (c # ds, r))
      else if is_digit c \<and> d = ord CHR ''_'' \<and> s \<noteq> [] \<and> is_digit (hd s)
      then (let (ds, r) = digitpart s in (c # ds, r))
      else if is_digit c then ([c], d # s) else ([], c # d # s))"
| "digitpart [c] = (if is_digit c then ([c], []) else ([], [c]))"
| "digitpart [] = ([], [])"

definition lower :: "codepoint \<Rightarrow> codepoint" where
  "lower c = (if 65 \<le> c \<and> c \<le> 90 then c + 32 else c)"

definition exponent :: "pystr \<Rightarrow> int option" where
  "exponent s =
     (case s of [] \<Rightarrow> Some 0
      | c # r \<Rightarrow>
          if lower c \<noteq> ord CHR ''e'' then None
          else (let (neg, r1) = (case r of [] \<Rightarrow> (False, r)
                                  | x # xs \<Rightarrow> if x = ord CHR ''-'' then (True, xs)
                                             else if x = ord CHR ''+'' then (False, xs)
                                             else (False, r));
                    (ds, r2) = digitpart r1 in
                if ds = [] \<or> r2 \<noteq> [] then None
                else Some (if neg then - int_of_digits ds else int_of_digits ds)))"

text \<open>The unsigned part of a number: \<open>digits[.digits][exponent]\<close> or
  \<open>.digits[exponent]\<close>. The value is kept exact: that a literal beyond the range of
  binary64 reads as infinity is not modelled.\<close>

definition scale10 :: "real \<Rightarrow> int \<Rightarrow> real" where
  "scale10 x e = (if 0 \<le> e then x * 10 ^ nat e else x / 10 ^ nat (- e))"

definition magnitude :: "pystr \<Rightarrow> pyfloat option" where
  "magnitude s =
     (if map lower s = str ''inf'' \<or> map lower s = str ''infinity'' then Some PInf
      else if map lower s = str ''nan'' then Some NaN
      else
        (let (ip, r) = digitpart s;
             (fp, r1) = (case r of [] \<Rightarrow> ([], r)
                         | c # t \<Rightarrow> if c = ord CHR ''.'' then digitpart t else ([], r)) in
         if ip = [] \<and> fp = [] then None
         else obind (exponent r1) (\<lambda>e.
           Some (Fin (scale10 (of_int (int_of_digits (ip @ fp))) (e - int (length fp)))))))"

definition float_impl :: "pystr \<Rightarrow> pyfloat option" where
  "float_impl s =
     (case strip s of [] \<Rightarrow> None
      | c # r \<Rightarrow>
          if c = ord CHR ''-'' then map_option fneg (magnitude r)
          else if c = ord CHR ''+'' then magnitude r
          else magnitude (c # r))"

definition grid_km :: "coords \<Rightarrow> coords \<Rightarrow> real option" where
  "grid_km p q =
     (case (p, q) of
        ((Fin lat1, Fin lon1), (Fin lat2, Fin lon2)) \<Rightarrow>
          if \<bar>lat1\<bar> \<le> 90 \<and> \<bar>lat2\<bar> \<le> 90
          then Some (111 * (\<bar>lat2 - lat1\<bar> + \<bar>lon2 - lon1\<bar>)) else None
      | _ \<Rightarrow> None)"

definition lib0 :: library where
  "lib0 = \<lparr> strptime = strptime_impl, to_float = float_impl, geodesic_km = grid_km \<rparr>"

subsection \<open>Concrete journeys\<close>

text \<open>The first line of the data in \<open>main\<close>, as a journey of one sample, and the table
  the program builds from it.\<close>

definition journey1 :: pystr where
  "journey1 =
     str ''0_Austin_Los Angeles'' @ [TAB] @ str ''2024-07-09 04:27:31.270921'' @ [TAB] @
     str ''30.267115'' @ [TAB] @ str ''-97.743072''"

definition df1 :: dataframe where
  "df1 =
     \<lparr> rows = [make_record
         \<lparr>year = 2024, month = 7, day = 9, hour = 4, minute = 27, second = 31,
            microsecond = 270921\<rparr>
         (Fin (30267115 / 1000000)) (Fin (- (97743072 / 1000000)))],
       duration_minutes = [0], distance_km = [0], cumulative_distance = [0],
       speed_kmh = [0] \<rparr>"

text \<open>Three samples, with a newline after the last line.\<close>

definition journey3 :: pystr where
  "journey3 =
     str ''a'' @ [TAB] @ str ''2024-07-09 04:27:31.270921'' @ [TAB] @ str ''30.0'' @ [TAB] @ str ''-97.0'' @ [NL] @
     str ''b'' @ [TAB] @ str ''2024-07-09 04:37:31.270921'' @ [TAB] @ str ''30.1'' @ [TAB] @ str ''-97.0'' @ [NL] @
     str ''c'' @ [TAB] @ str ''2024-07-09 04:47:32.000000'' @ [TAB] @ str ''30.1'' @ [TAB] @ str ''-97.1'' @ [NL]"

definition df3 :: dataframe where
  "df3 =
     \<lparr> rows = [
         make_record
           \<lparr>year = 2024, month = 7, day = 9, hour = 4, minute = 27, second = 31,
              microsecond = 270921\<rparr> (Fin 30) (Fin (- 97)),
         make_record
           \<lparr>year = 2024, month = 7, day = 9, hour = 4, minute = 37, second = 31,
              microsecond = 270921\<rparr> (Fin (301 / 10)) (Fin (- 97)),
         make_record
           \<lparr>year = 2024, month = 7, day = 9, hour = 4, minute = 47, second = 32,
              microsecond = 0\<rparr> (Fin (301 / 10)) (Fin (- (971 / 10)))],
       duration_minutes = [0, 10, 2001 / 100],
       distance_km = [0, 111 / 10, 111 / 10],
       cumulative_distance = [0, 111 / 10, 111 / 5],
       speed_kmh = [0, 333 / 5, 333 / 5] \<rparr>"

text \<open>The same three places, visited an hour apart on another day.\<close>

definition journey3_slow :: pystr where
  "journey3_slow =
     str ''a'' @ [TAB] @ str ''2025-01-02 10:00:00.0'' @ [TAB] @ str ''30.0'' @ [TAB] @ str ''-97.0'' @ [NL] @
     str ''b'' @ [TAB] @ str ''2025-01-02 11:00:00.0'' @ [TAB] @ str ''30.1'' @ [TAB] @ str ''-97.0'' @ [NL] @
     str ''c'' @ [TAB] @ str ''2025-01-02 12:00:00.0'' @ [TAB] @ str ''30.1'' @ [TAB] @ str ''-97.1''"

definition df3_slow :: dataframe where
  "df3_slow =
     \<lparr> rows = [
         make_record
           \<lparr>year = 2025, month = 1, day = 2, hour = 10, minute = 0, second = 0,
              microsecond = 0\<rparr> (Fin 30) (Fin (- 97)),
         make_record
           \<lparr>year = 2025, month = 1, day = 2, hour = 11, minute = 0, second = 0,
              microsecond = 0\<rparr> (Fin (301 / 10)) (Fin (- 97)),
         make_record
           \<lparr>year = 2025, month = 1, day = 2, hour = 12, minute = 0, second = 0,
              microsecond = 0\<rparr> (Fin (301 / 10)) (Fin (- (971 / 10)))],
       duration_minutes = [0, 60, 120],
       distance_km = [0, 111 / 10, 111 / 10],
       cumulative_distance = [0, 111 / 10, 111 / 5],
       speed_kmh = [0, 333 / 5, 333 / 5] \<rparr>"

text \<open>Three samples at one place, then a move.\<close>

definition journey4 :: pystr where
  "journey4 =
     str ''a'' @ [TAB] @ str ''2024-07-09 04:00:00.000000'' @ [TAB] @ str ''30.0'' @ [TAB] @ str ''-97.0'' @ [NL] @
     str ''a'' @ [TAB] @ str ''2024-07-09 04:10:00.000000'' @ [TAB] @ str ''30.0'' @ [TAB] @ str ''-97.0'' @ [NL] @
     str ''a'' @ [TAB] @ str ''2024-07-09 04:20:00.000000'' @ [TAB] @ str ''30.0'' @ [TAB] @ str ''-97.0'' @ [NL] @
     str ''b'' @ [TAB] @ str ''2024-07-09 04:30:00.000000'' @ [TAB] @ str ''30.1'' @ [TAB] @ str ''-97.0'' @ [NL]"

definition df4 :: dataframe where
  "df4 =
     \<lparr> rows = [
         make_record
           \<lparr>year = 2024, month = 7, day = 9, hour = 4, minute = 0, second = 0,
              microsecond = 0\<rparr> (Fin 30) (Fin (- 97)),
         make_record
           \<lparr>year = 2024, month = 7, day = 9, hour = 4, minute = 10, second = 0,
              microsecond = 0\<rparr> (Fin 30) (Fin (- 97)),
         make_record
           \<lparr>year = 2024, month = 7, day = 9, hour = 4, minute = 20, second = 0,
              microsecond = 0\<rparr> (Fin 30) (Fin (- 97)),
         make_record
           \<lparr>year = 2024, month = 7, day = 9, hour = 4, minute = 30, second = 0,
              microsecond = 0\<rparr> (Fin (301 / 10)) (Fin (- 97))],
       duration_minutes = [0, 10, 20, 30],
       distance_km = [0, 0, 0, 111 / 10],
       cumulative_distance = [0, 0, 0, 111 / 10],
       speed_kmh = [0, 0, 0, 333 / 5] \<rparr>"

text \<open>Texts on which the program raises: an empty text, a line of three fields, a
  timestamp with \<open>T\<close> between date and time, and two well-formed lines with an empty
  line between them.\<close>

definition three_fields :: pystr where
  "three_fields = str ''a'' @ [TAB] @ str ''2024-07-09 04:27:31.270921'' @ [TAB] @ str ''30.0''"

definition bad_timestamp :: pystr where
  "bad_timestamp =
     str ''a'' @ [TAB] @ str ''2024-07-09T04:27:31.270921'' @ [TAB] @ str ''30.0'' @ [TAB] @ str ''-97.0''"

definition blank_between :: pystr where
  "blank_between =
     str ''a'' @ [TAB] @ str ''2024-07-09 04:27:31.270921'' @ [TAB] @ str ''30.0'' @ [TAB] @ str ''-97.0'' @ [NL] @
     [NL] @
     str ''b'' @ [TAB] @ str ''2024-07-09 04:37:31.270921'' @ [TAB] @ str ''30.1'' @ [TAB] @ str ''-97.0''"

text \<open>A journey that runs over the end of a day, of a month and of a year.\<close>

definition journey_overnight :: pystr where
  "journey_overnight =
     str ''a'' @ [TAB] @ str ''2024-02-29 23:50:00.500000'' @ [TAB] @ str ''30.0'' @ [TAB] @ str ''-97.0'' @ [NL] @
     str ''b'' @ [TAB] @ str ''2024-03-01 00:00:00.500000'' @ [TAB] @ str ''30.1'' @ [TAB] @ str ''-97.0'' @ [NL] @
     str ''c'' @ [TAB] @ str ''2025-01-01 00:00:30.000000'' @ [TAB] @ str ''30.1'' @ [TAB] @ str ''-97.1''"

definition df_overnight :: dataframe where
  "df_overnight =
     \<lparr> rows = [
         make_record
           \<lparr>year = 2024, month = 2, day = 29, hour = 23, minute = 50, second = 0,
              microsecond = 500000\<rparr> (Fin 30) (Fin (- 97)),
         make_record
           \<lparr>year = 2024, month = 3, day = 1, hour = 0, minute = 0, second = 0,
              microsecond = 500000\<rparr> (Fin (301 / 10)) (Fin (- 97)),
         make_record
           \<lparr>year = 2025, month = 1, day = 1, hour = 0, minute = 0, second = 30,
              microsecond = 0\<rparr> (Fin (301 / 10)) (Fin (- (971 / 10)))],
       duration_minutes = [0, 10, 44065049 / 100],
       distance_km = [0, 111 / 10, 111 / 10],
       cumulative_distance = [0, 111 / 10, 111 / 5],
       speed_kmh = [0, 333 / 5, 333 / 5] \<rparr>"

text \<open>More texts on which the program raises: a second line whose timestamp is not
  one, and a line of three fields whose latitude is not a number. And the single sample
  of \<open>journey1\<close> between two empty lines and a line holding a no-break space.\<close>

definition bad_second_line :: pystr where
  "bad_second_line =
     str ''a'' @ [TAB] @ str ''2024-07-09 04:27:31.270921'' @ [TAB] @ str ''30.0'' @ [TAB] @ str ''-97.0'' @ [NL] @
     str ''b'' @ [TAB] @ str ''yesterday'' @ [TAB] @ str ''30.1'' @ [TAB] @ str ''-97.0''"

definition three_fields_bad_latitude :: pystr where
  "three_fields_bad_latitude =
     str ''a'' @ [TAB] @ str ''2024-07-09 04:27:31.270921'' @ [TAB] @ str ''north''"

definition journey1_padded :: pystr where
  "journey1_padded = [NL, NL] @ journey1 @ [NL, 0xA0]"

subsection \<open>The order of timestamps\<close>

text \<open>The fields of a \<open>datetime\<close> object are within the ranges its constructor
  enforces, and two such objects compare as the tuples of their fields do.\<close>

definition valid_datetime :: "datetime \<Rightarrow> bool" where
  "valid_datetime t \<longleftrightarrow>
     1 \<le> year t \<and> year t \<le> 9999 \<and> 1 \<le> month t \<and> month t \<le> 12
     \<and> 1 \<le> day t \<and> day t \<le> days_in_month (year t) (month t)
     \<and> 0 \<le> hour t \<and> hour t < 24 \<and> 0 \<le> minute t \<and> minute t < 60
     \<and> 0 \<le> second t \<and> second t < 60 \<and> 0 \<le> microsecond t \<and> microsecond t < 1000000"

fun lex_le :: "int list \<Rightarrow> int list \<Rightarrow> bool" where
  "lex_le (x # xs) (y # ys) \<longleftrightarrow> x < y \<or> (x = y \<and> lex_le xs ys)"
| "lex_le _ _ \<longleftrightarrow> True"

definition datetime_le :: "datetime \<Rightarrow> datetime \<Rightarrow> bool" where
  "datetime_le a b =
     lex_le [year a, month a, day a, hour a, minute a, second a, microsecond a]
            [year b, month b, day b, hour b, minute b, second b, microsecond b]"

section \<open>Properties\<close>

subsection \<open>How a successful run decomposes\<close>

lemma bind_Inl [simp]: "bind (Inl e) f = Inl e"
  by (simp add: bind_def)

lemma bind_Inr [simp]: "bind (Inr v) f = f v"
  by (simp add: bind_def)

lemma bind_eq_Inr: "bind r f = Inr y \<longleftrightarrow> (\<exists>v. r = Inr v \<and> f v = Inr y)"
  by (cases r) simp_all

lemma bind_eq_Inl: "bind r f = Inl e \<longleftrightarrow> r = Inl e \<or> (\<exists>v. r = Inr v \<and> f v = Inl e)"
  by (cases r) simp_all

lemma lib_call_eq_Inr: "lib_call r = Inr v \<longleftrightarrow> r = Some v"
  by (cases r) (simp_all add: lib_call_def)

lemma lib_call_eq_Inl: "lib_call r = Inl e \<longleftrightarrow> r = None \<and> e = ValueError"
  by (cases r) (auto simp: lib_call_def)

lemma split_not_Nil [simp]: "split c s \<noteq> []"
  by (induction s) (auto split: list.splits)

lemma load_Inr:
  assumes "load_and_process_data L t = Inr df"
  obtains rs where "parse_lines L (split NL (strip t)) = Inr rs" and "derive L rs = Inr df"
  using assms by (auto simp: load_and_process_data_def bind_eq_Inr)

lemma derive_Inr:
  assumes "derive L rs = Inr df"
  obtains r0 rest ds where "rs = r0 # rest"
    and "segment_distances L rs = Inr ds"
    and "rows df = rs"
    and "duration_minutes df = minutes_since (timestamp r0) rs"
    and "distance_km df = 0 # ds"
    and "cumulative_distance df = cumsum (0 # ds)"
    and "speed_kmh df = speed_column (0 # ds)"
proof (cases rs)
  case Nil
  with assms show ?thesis
    by (simp add: derive_def duration_column_def)
next
  case (Cons r0 rest)
  with assms obtain ds where ds: "segment_distances L rs = Inr ds"
    and df: "df = \<lparr> rows = rs,
        duration_minutes = minutes_since (timestamp r0) rs,
        distance_km = 0 # ds, cumulative_distance = cumsum (0 # ds),
        speed_kmh = speed_column (0 # ds) \<rparr>"
    by (auto simp: derive_def duration_column_def distance_column_def bind_eq_Inr)
  show ?thesis
    by (rule that [OF Cons ds]) (simp_all add: df)
qed

lemma parse_lines_length:
  "parse_lines L ls = Inr rs \<Longrightarrow> length rs = length ls"
  by (induction ls arbitrary: rs) (auto simp: bind_eq_Inr)

lemma parse_lines_nth:
  "parse_lines L ls = Inr rs \<Longrightarrow> i < length ls \<Longrightarrow> parse_line L (ls ! i) = Inr (rs ! i)"
proof (induction ls arbitrary: rs i)
  case Nil
  then show ?case by simp
next
  case (Cons l ls)
  then obtain r rs' where r: "parse_line L l = Inr r"
    and rs': "parse_lines L ls = Inr rs'" and rs: "rs = r # rs'"
    by (auto simp: bind_eq_Inr)
  show ?case
  proof (cases i)
    case 0
    then show ?thesis by (simp add: r rs)
  next
    case (Suc j)
    with Cons.prems have "j < length ls" by simp
    from Cons.IH [OF rs' this] show ?thesis by (simp add: Suc rs)
  qed
qed

lemma segment_distances_length:
  "segment_distances L rs = Inr ds \<Longrightarrow> length ds = length rs - 1"
  by (induction L rs arbitrary: ds rule: segment_distances.induct)
     (auto simp: bind_eq_Inr)

lemma length_cumsum_from [simp]: "length (cumsum_from a xs) = length xs"
  by (induction xs arbitrary: a) simp_all

lemma length_cumsum [simp]: "length (cumsum xs) = length xs"
  by (cases xs) (simp_all add: cumsum_def)

lemma length_minutes_since [simp]: "length (minutes_since t0 rs) = length rs"
  by (induction rs) simp_all

lemma length_speed_column [simp]: "length (speed_column ds) = length ds"
  by (simp add: speed_column_def)

lemma cumsum_from_nth:
  "i < length xs \<Longrightarrow> cumsum_from a xs ! i = (a # cumsum_from a xs) ! i + xs ! i"
proof (induction xs arbitrary: a i)
  case Nil
  then show ?case by simp
next
  case (Cons x xs)
  show ?case
  proof (cases i)
    case 0
    then show ?thesis by simp
  next
    case (Suc j)
    with Cons.prems have "j < length xs" by simp
    from Cons.IH [OF this, of "a + x"] show ?thesis by (simp add: Suc)
  qed
qed

lemma cumsum_step:
  assumes "0 < i" and "i < length xs"
  shows "cumsum xs ! i = cumsum xs ! (i - 1) + xs ! i"
proof (cases xs)
  case Nil
  with assms show ?thesis by simp
next
  case (Cons x ys)
  from assms obtain j where i: "i = Suc j" by (cases i) auto
  with assms Cons have "j < length ys" by simp
  from cumsum_from_nth [OF this, of x] show ?thesis
    by (simp add: Cons cumsum_def i)
qed

lemma load_lengths:
  assumes "load_and_process_data L t = Inr df"
  shows "length (rows df) = length (split NL (strip t))"
    and "length (duration_minutes df) = length (rows df)"
    and "length (distance_km df) = length (rows df)"
    and "length (cumulative_distance df) = length (rows df)"
    and "length (speed_kmh df) = length (rows df)"
    and "0 < length (rows df)"
proof -
  from assms obtain rs where p: "parse_lines L (split NL (strip t)) = Inr rs"
    and d: "derive L rs = Inr df" by (rule load_Inr)
  from d obtain r0 rest ds where rs: "rs = r0 # rest"
    and ds: "segment_distances L rs = Inr ds" and rows: "rows df = rs"
    and dur: "duration_minutes df = minutes_since (timestamp r0) rs"
    and dist: "distance_km df = 0 # ds"
    and cum: "cumulative_distance df = cumsum (0 # ds)"
    and sp: "speed_kmh df = speed_column (0 # ds)"
    by (rule derive_Inr)
  have len: "length ds = length rest"
    using segment_distances_length [OF ds] by (simp add: rs)
  show "length (rows df) = length (split NL (strip t))"
    using parse_lines_length [OF p] by (simp add: rows)
  show "length (duration_minutes df) = length (rows df)" by (simp add: dur rows)
  show "length (distance_km df) = length (rows df)" by (simp add: dist rows rs len)
  show "length (cumulative_distance df) = length (rows df)" by (simp add: cum rows rs len)
  show "length (speed_kmh df) = length (rows df)" by (simp add: sp rows rs len)
  show "0 < length (rows df)" by (simp add: rows rs)
qed

subsection \<open>The concrete journeys, evaluated\<close>

lemma load_journey1: "load_and_process_data lib0 journey1 = Inr df1"
  by code_simp

lemma load_journey3: "load_and_process_data lib0 journey3 = Inr df3"
  by code_simp

lemma load_journey3_slow: "load_and_process_data lib0 journey3_slow = Inr df3_slow"
  by code_simp

lemma load_journey4: "load_and_process_data lib0 journey4 = Inr df4"
  by code_simp

subsection \<open>The first record\<close>

lemma rint_0 [simp]: "rint 0 = 0"
  by (simp add: rint_def)

lemma round2_0 [simp]: "round2 0 = 0"
  by (simp add: round2_def)

text \<open>
  Claim C6. Whenever \<open>load_and_process_data\<close> returns a table, the table has a first
  row, and that row has distance 0, speed 0 and elapsed minutes 0.
\<close>

theorem first_record_zero:
  assumes "load_and_process_data L t = Inr df"
  shows "0 < length (rows df)
       \<and> length (distance_km df) = length (rows df)
       \<and> length (speed_kmh df) = length (rows df)
       \<and> length (duration_minutes df) = length (rows df)
       \<and> distance_km df ! 0 = 0 \<and> speed_kmh df ! 0 = 0 \<and> duration_minutes df ! 0 = 0"
proof -
  from assms obtain rs where d: "derive L rs = Inr df" by (rule load_Inr)
  from d obtain r0 rest ds where rs: "rs = r0 # rest"
    and dur: "duration_minutes df = minutes_since (timestamp r0) rs"
    and dist: "distance_km df = 0 # ds"
    and sp: "speed_kmh df = speed_column (0 # ds)"
    by (rule derive_Inr)
  have "duration_minutes df ! 0 = 0"
    by (simp add: dur rs total_seconds_def)
  moreover have "distance_km df ! 0 = 0" by (simp add: dist)
  moreover have "speed_kmh df ! 0 = 0" by (simp add: sp speed_column_def)
  ultimately show ?thesis
    using load_lengths [OF assms] by simp
qed

theorem first_record_zero_witness:
  "load_and_process_data lib0 journey3 = Inr df3
   \<and> length (rows df3) = 3
   \<and> distance_km df3 ! 0 = 0 \<and> speed_kmh df3 ! 0 = 0 \<and> duration_minutes df3 ! 0 = 0"
  using first_record_zero [OF load_journey3] load_journey3
  by (simp add: df3_def)

subsection \<open>Cumulative distance\<close>

lemma cumsum_from_sum:
  "i < length xs \<Longrightarrow> cumsum_from a xs ! i = a + sum_list (take (Suc i) xs)"
proof (induction xs arbitrary: a i)
  case Nil
  then show ?case by simp
next
  case (Cons x xs)
  show ?case
  proof (cases i)
    case 0
    then show ?thesis by simp
  next
    case (Suc j)
    with Cons.prems have "j < length xs" by simp
    from Cons.IH [OF this, of "a + x"] show ?thesis by (simp add: Suc)
  qed
qed

lemma cumsum_sum:
  assumes "i < length xs"
  shows "cumsum xs ! i = sum_list (take (Suc i) xs)"
proof (cases xs)
  case Nil
  with assms show ?thesis by simp
next
  case (Cons x ys)
  show ?thesis
  proof (cases i)
    case 0
    then show ?thesis by (simp add: Cons cumsum_def)
  next
    case (Suc j)
    with assms Cons have "j < length ys" by simp
    from cumsum_from_sum [OF this, of x] show ?thesis
      by (simp add: Cons cumsum_def Suc)
  qed
qed

text \<open>
  Claim C3. In every table that \<open>load_and_process_data\<close> returns, the columns
  \<open>cumulative_distance\<close> and \<open>distance_km\<close> have the same length, both start with 0,
  every later entry of \<open>cumulative_distance\<close> is the entry before it plus the distance
  at the same index, and so entry \<open>i\<close> is the sum of the distances up to index \<open>i\<close>,
  added from left to right.
\<close>

theorem cumulative_is_prefix_sum:
  assumes "load_and_process_data L t = Inr df"
  shows "length (cumulative_distance df) = length (distance_km df)
       \<and> cumulative_distance df ! 0 = 0 \<and> distance_km df ! 0 = 0
       \<and> (\<forall>i. 0 < i \<and> i < length (distance_km df) \<longrightarrow>
             cumulative_distance df ! i =
               cumulative_distance df ! (i - 1) + distance_km df ! i)
       \<and> (\<forall>i < length (distance_km df).
             cumulative_distance df ! i = sum_list (take (Suc i) (distance_km df)))"
proof -
  from assms obtain rs where d: "derive L rs = Inr df" by (rule load_Inr)
  from d obtain r0 rest ds where dist: "distance_km df = 0 # ds"
    and cum: "cumulative_distance df = cumsum (0 # ds)"
    by (rule derive_Inr)
  have cum': "cumulative_distance df = cumsum (distance_km df)"
    by (simp add: cum dist)
  have "cumulative_distance df ! 0 = 0" by (simp add: cum cumsum_def)
  moreover have "distance_km df ! 0 = 0" by (simp add: dist)
  moreover have "length (cumulative_distance df) = length (distance_km df)"
    by (simp add: cum')
  moreover have "\<forall>i. 0 < i \<and> i < length (distance_km df) \<longrightarrow>
      cumulative_distance df ! i = cumulative_distance df ! (i - 1) + distance_km df ! i"
    unfolding cum' using cumsum_step by blast
  moreover have "\<forall>i < length (distance_km df).
      cumulative_distance df ! i = sum_list (take (Suc i) (distance_km df))"
    unfolding cum' using cumsum_sum by blast
  ultimately show ?thesis by blast
qed

theorem cumulative_is_prefix_sum_witness:
  "load_and_process_data lib0 journey3 = Inr df3
   \<and> distance_km df3 = [0, 111 / 10, 111 / 10]
   \<and> cumulative_distance df3 = [0, 111 / 10, 111 / 5]
   \<and> cumulative_distance df3 ! 2 = cumulative_distance df3 ! 1 + distance_km df3 ! 2
   \<and> cumulative_distance df3 ! 2 = sum_list (take 3 (distance_km df3))"
proof -
  note T = cumulative_is_prefix_sum [OF load_journey3]
  have len: "(0::nat) < 2 \<and> 2 < length (distance_km df3)" by (simp add: df3_def)
  from T have "\<forall>i. 0 < i \<and> i < length (distance_km df3) \<longrightarrow>
      cumulative_distance df3 ! i = cumulative_distance df3 ! (i - 1) + distance_km df3 ! i"
    by (elim conjE)
  from this [rule_format, OF len]
  have step: "cumulative_distance df3 ! 2 = cumulative_distance df3 ! 1 + distance_km df3 ! 2"
    by simp
  from T have "\<forall>i < length (distance_km df3).
      cumulative_distance df3 ! i = sum_list (take (Suc i) (distance_km df3))"
    by (elim conjE)
  from this [rule_format, of 2] len
  have total: "cumulative_distance df3 ! 2 = sum_list (take 3 (distance_km df3))"
    by (simp add: numeral_3_eq_3)
  have "distance_km df3 = [0, 111 / 10, 111 / 10]"
    and "cumulative_distance df3 = [0, 111 / 10, 111 / 5]"
    by (simp_all add: df3_def)
  with step total load_journey3 show ?thesis by blast
qed

subsection \<open>Speed\<close>

lemma segment_distances_coords:
  "map coords_of rs = map coords_of rs' \<Longrightarrow>
   segment_distances L rs = segment_distances L rs'"
proof (induction rs arbitrary: rs')
  case Nil
  then show ?case by simp
next
  case (Cons r1 rs)
  then obtain r1' rs1' where rs': "rs' = r1' # rs1'"
    and c1: "coords_of r1 = coords_of r1'"
    and rest: "map coords_of rs = map coords_of rs1'"
    by (cases rs') auto
  show ?case
  proof (cases rs)
    case Nil
    with rest show ?thesis by (simp add: rs')
  next
    case (Cons r2 rs2)
    with rest obtain r2' rs2' where rs1': "rs1' = r2' # rs2'"
      and c2: "coords_of r2 = coords_of r2'"
      by (cases rs1') auto
    from Cons.IH [OF rest] show ?thesis
      by (simp add: rs' rs1' Cons c1 c2)
  qed
qed

text \<open>
  Claim C2. In every table that \<open>load_and_process_data\<close> returns, the speed of each
  record is its segment distance divided by \<open>10 / 60\<close> hours. The timestamps play no part:
  two texts that load to tables with the same coordinates in the same order have the same
  speed column, whatever their timestamps are.
\<close>

theorem speed_is_distance_over_nominal_interval:
  assumes "load_and_process_data L t = Inr df"
  shows "length (speed_kmh df) = length (distance_km df)
       \<and> (\<forall>i < length (distance_km df). speed_kmh df ! i = distance_km df ! i / (10 / 60))
       \<and> (\<forall>t' df'. load_and_process_data L t' = Inr df'
             \<and> map coords_of (rows df') = map coords_of (rows df)
             \<longrightarrow> speed_kmh df' = speed_kmh df)"
proof -
  from assms obtain rs where d: "derive L rs = Inr df" by (rule load_Inr)
  from d obtain r0 rest ds where ds: "segment_distances L rs = Inr ds"
    and rows: "rows df = rs"
    and dist: "distance_km df = 0 # ds"
    and sp: "speed_kmh df = speed_column (0 # ds)"
    by (rule derive_Inr)
  have sp': "speed_kmh df = map (\<lambda>d. d / (10 / 60)) (distance_km df)"
    by (simp add: sp dist speed_column_def)
  have "\<forall>i < length (distance_km df). speed_kmh df ! i = distance_km df ! i / (10 / 60)"
    by (simp add: sp')
  moreover have "length (speed_kmh df) = length (distance_km df)"
    by (simp add: sp')
  moreover have "speed_kmh df' = speed_kmh df"
    if l': "load_and_process_data L t' = Inr df'"
      and c: "map coords_of (rows df') = map coords_of (rows df)" for t' df'
  proof -
    from l' obtain rs' where d': "derive L rs' = Inr df'" by (rule load_Inr)
    from d' obtain r0' rest' ds' where ds': "segment_distances L rs' = Inr ds'"
      and rows': "rows df' = rs'"
      and sp2: "speed_kmh df' = speed_column (0 # ds')"
      by (rule derive_Inr)
    from c have "segment_distances L rs' = segment_distances L rs"
      unfolding rows rows' by (rule segment_distances_coords)
    with ds ds' have "ds' = ds" by simp
    then show ?thesis by (simp add: sp sp2)
  qed
  ultimately show ?thesis by blast
qed

theorem speed_is_distance_over_nominal_interval_witness:
  "load_and_process_data lib0 journey3 = Inr df3
   \<and> load_and_process_data lib0 journey3_slow = Inr df3_slow
   \<and> map coords_of (rows df3_slow) = map coords_of (rows df3)
   \<and> duration_minutes df3 = [0, 10, 2001 / 100]
   \<and> duration_minutes df3_slow = [0, 60, 120]
   \<and> speed_kmh df3_slow = speed_kmh df3
   \<and> speed_kmh df3 ! 1 = distance_km df3 ! 1 / (10 / 60)
   \<and> speed_kmh df3 ! 1 = 333 / 5"
proof -
  have c: "map coords_of (rows df3_slow) = map coords_of (rows df3)"
    by (simp add: df3_def df3_slow_def coords_of_def make_record_def)
  have i: "(1::nat) < length (distance_km df3)" by (simp add: df3_def)
  from speed_is_distance_over_nominal_interval [OF load_journey3]
  have "speed_kmh df3_slow = speed_kmh df3"
    and "speed_kmh df3 ! 1 = distance_km df3 ! 1 / (10 / 60)"
    using load_journey3_slow c i by blast+
  then show ?thesis
    using load_journey3 load_journey3_slow c by (simp add: df3_def df3_slow_def)
qed

subsection \<open>Monotonicity\<close>

lemma segment_distances_nonneg:
  assumes nonneg: "\<forall>p q d. geodesic_km L p q = Some d \<longrightarrow> 0 \<le> d"
  shows "segment_distances L rs = Inr ds \<Longrightarrow> \<forall>d \<in> set ds. 0 \<le> d"
proof (induction rs arbitrary: ds)
  case Nil
  then show ?case by simp
next
  case (Cons r1 rs)
  show ?case
  proof (cases rs)
    case Nil
    with Cons.prems show ?thesis by simp
  next
    case (Cons r2 rs2)
    with Cons.prems obtain d ds' where
      d: "geodesic_km L (coords_of r1) (coords_of r2) = Some d"
      and ds': "segment_distances L rs = Inr ds'" and ds: "ds = d # ds'"
      by (auto simp: bind_eq_Inr lib_call_eq_Inr)
    from nonneg d have "0 \<le> d" by blast
    with Cons.IH [OF ds'] show ?thesis by (simp add: ds)
  qed
qed

lemma sorted_cumsum_from:
  "\<forall>x \<in> set xs. 0 \<le> x \<Longrightarrow> sorted (a # cumsum_from a xs)"
proof (induction xs arbitrary: a)
  case Nil
  then show ?case by simp
next
  case (Cons x xs)
  then have "sorted ((a + x) # cumsum_from (a + x) xs)" and "a \<le> a + x"
    by simp_all
  then show ?case by (simp del: sorted_wrt.simps add: sorted2)
qed

lemma sorted_cumsum:
  assumes "\<forall>x \<in> set (tl xs). 0 \<le> x"
  shows "sorted (cumsum xs)"
proof (cases xs)
  case Nil
  then show ?thesis by (simp add: cumsum_def)
next
  case (Cons x ys)
  with assms sorted_cumsum_from [of ys x] show ?thesis
    by (simp add: cumsum_def)
qed

lemma rint_bounds: "\<lfloor>x\<rfloor> \<le> rint x \<and> rint x \<le> \<lfloor>x\<rfloor> + 1"
  by (simp add: rint_def Let_def)

lemma rint_mono:
  assumes "x \<le> y"
  shows "rint x \<le> rint y"
proof (cases "\<lfloor>x\<rfloor> = \<lfloor>y\<rfloor>")
  case True
  with assms have "x - of_int \<lfloor>y\<rfloor> \<le> y - of_int \<lfloor>y\<rfloor>" by simp
  with True show ?thesis
    by (auto simp: rint_def Let_def)
next
  case False
  with assms have "\<lfloor>x\<rfloor> < \<lfloor>y\<rfloor>"
    using floor_mono [OF assms] by linarith
  with rint_bounds [of x] rint_bounds [of y] show ?thesis by linarith
qed

lemma round2_mono: "x \<le> y \<Longrightarrow> round2 x \<le> round2 y"
  unfolding round2_def
  by (intro divide_right_mono) (simp_all add: rint_mono)

lemma minutes_since_map:
  "minutes_since t0 rs = map (\<lambda>r. round2 (total_seconds (timestamp r) t0 / 60)) rs"
  by (induction rs) simp_all

lemma sorted_minutes_since:
  assumes "sorted (map (\<lambda>r. to_us (timestamp r)) rs)"
  shows "sorted (minutes_since t0 rs)"
proof -
  have step: "round2 (total_seconds (timestamp a) t0 / 60)
      \<le> round2 (total_seconds (timestamp b) t0 / 60)"
    if "to_us (timestamp a) \<le> to_us (timestamp b)" for a b
  proof (rule round2_mono)
    from that have "(of_int (to_us (timestamp a) - to_us t0) :: real)
        \<le> of_int (to_us (timestamp b) - to_us t0)"
      by simp
    then show "total_seconds (timestamp a) t0 / 60 \<le> total_seconds (timestamp b) t0 / 60"
      unfolding total_seconds_def by (simp add: divide_right_mono)
  qed
  from assms have "sorted_wrt (\<lambda>a b. to_us (timestamp a) \<le> to_us (timestamp b)) rs"
    by (simp add: sorted_map)
  then have "sorted_wrt (\<lambda>a b. round2 (total_seconds (timestamp a) t0 / 60)
      \<le> round2 (total_seconds (timestamp b) t0 / 60)) rs"
    by (rule sorted_wrt_mono_rel [rotated]) (rule step)
  then show ?thesis
    by (simp add: minutes_since_map sorted_map)
qed

subsection \<open>Timestamps in field order are in time order\<close>

lemma div_succ:
  fixes d z :: int
  assumes "0 < d"
  shows "(z + 1) div d = z div d + (if (z + 1) mod d = 0 then 1 else 0)"
proof -
  have z: "z = d * (z div d) + z mod d" by simp
  have r: "0 \<le> z mod d" "z mod d < d" using assms by simp_all
  show ?thesis
  proof (cases "z mod d = d - 1")
    case True
    with z have e: "z + 1 = d * (z div d + 1) + 0"
      by (simp add: algebra_simps)
    have "(z + 1) div d = z div d + 1"
      by (rule int_div_pos_eq [OF e]) (use assms in simp_all)
    moreover have "(z + 1) mod d = 0"
      by (rule int_mod_pos_eq [OF e]) (use assms in simp_all)
    ultimately show ?thesis by simp
  next
    case False
    with r have r': "0 \<le> z mod d + 1" "z mod d + 1 < d" by simp_all
    from z have e: "z + 1 = d * (z div d) + (z mod d + 1)" by simp
    have "(z + 1) div d = z div d"
      by (rule int_div_pos_eq [OF e r'])
    moreover have "(z + 1) mod d = z mod d + 1"
      by (rule int_mod_pos_eq [OF e r'])
    ultimately show ?thesis using r by simp
  qed
qed

lemma mod_100_4: "(y::int) mod 100 = 0 \<Longrightarrow> y mod 4 = 0"
proof -
  assume "y mod 100 = 0"
  then have "100 dvd y" by (simp add: dvd_eq_mod_eq_0)
  moreover have "(4::int) dvd 100" by simp
  ultimately have "4 dvd y" by (metis dvd_trans)
  then show ?thesis by (simp add: dvd_eq_mod_eq_0)
qed

lemma mod_400_100: "(y::int) mod 400 = 0 \<Longrightarrow> y mod 100 = 0"
proof -
  assume "y mod 400 = 0"
  then have "400 dvd y" by (simp add: dvd_eq_mod_eq_0)
  moreover have "(100::int) dvd 400" by simp
  ultimately have "100 dvd y" by (metis dvd_trans)
  then show ?thesis by (simp add: dvd_eq_mod_eq_0)
qed


lemma days_before_year_step:
  "days_before_year (y + 1) = days_before_year y + (if is_leap y then 366 else 365)"
proof -
  define z where "z = y - 1"
  define q4 q100 q400 where "q4 = z div 4" and "q100 = z div 100" and "q400 = z div 400"
  define c4 c100 c400 :: int where "c4 = (if y mod 4 = 0 then 1 else 0)"
    and "c100 = (if y mod 100 = 0 then 1 else 0)"
    and "c400 = (if y mod 400 = 0 then 1 else 0)"
  have y: "y = z + 1" by (simp add: z_def)
  have a4: "y div 4 = q4 + c4"
    unfolding y q4_def c4_def by (rule div_succ) simp
  have a100: "y div 100 = q100 + c100"
    unfolding y q100_def c100_def by (rule div_succ) simp
  have a400: "y div 400 = q400 + c400"
    unfolding y q400_def c400_def by (rule div_succ) simp
  have e1: "days_before_year (y + 1) = y * 365 + y div 4 - y div 100 + y div 400"
    by (simp add: days_before_year_def Let_def)
  have e2: "days_before_year y = z * 365 + q4 - q100 + q400"
    by (simp add: days_before_year_def Let_def z_def q4_def q100_def q400_def)
  have leap: "c4 - c100 + c400 = (if is_leap y then 1 else 0)"
  proof (cases "y mod 400 = 0")
    case True
    with mod_100_4 [of y] mod_400_100 [of y] show ?thesis
      by (simp add: c4_def c100_def c400_def is_leap_def)
  next
    case F400: False
    show ?thesis
    proof (cases "y mod 100 = 0")
      case True
      with F400 mod_100_4 [of y] show ?thesis
        by (simp add: c4_def c100_def c400_def is_leap_def)
    next
      case False
      with F400 show ?thesis
        by (simp add: c4_def c100_def c400_def is_leap_def)
    qed
  qed
  have "days_before_year (y + 1) = y * 365 + (q4 + c4) - (q100 + c100) + (q400 + c400)"
    by (simp only: e1 a4 a100 a400)
  also have "\<dots> = z * 365 + q4 - q100 + q400 + 365 + (c4 - c100 + c400)"
    by (simp add: y algebra_simps)
  also have "\<dots> = days_before_year y + 365 + (c4 - c100 + c400)"
    by (simp only: e2)
  finally have "days_before_year (y + 1) = days_before_year y + 365 + (c4 - c100 + c400)" .
  then show ?thesis unfolding leap by simp
qed

lemma days_in_month_bounds: "28 \<le> days_in_month y m \<and> days_in_month y m \<le> 31"
  by (simp add: days_in_month_def)

lemma days_before_month_step:
  assumes "1 \<le> m"
  shows "days_before_month y (m + 1) = days_before_month y m + days_in_month y m"
proof -
  from assms have "[1..m] = [1..m - 1] @ [m]" by (simp add: upto_rec2)
  then show ?thesis by (simp add: days_before_month_def)
qed

lemma days_before_month_mono:
  assumes "1 \<le> m1" and "m1 < m2"
  shows "days_before_month y m1 + days_in_month y m1 \<le> days_before_month y m2"
proof -
  from assms(2) have "m1 + 1 \<le> m2" by simp
  then show ?thesis
  proof (induction m2 rule: int_ge_induct)
    case base
    then show ?case using assms(1) by (simp add: days_before_month_step)
  next
    case (step k)
    with assms(1) have "1 \<le> k" by simp
    from days_before_month_step [OF this, of y] days_in_month_bounds [of y k] step.IH
    show ?case by simp
  qed
qed

lemma days_before_month_nonneg: "0 \<le> days_before_month y m"
  unfolding days_before_month_def
  by (rule sum_list_nonneg) (auto simp: days_in_month_def)

lemma days_before_month_13:
  "days_before_month y 13 = (if is_leap y then 366 else 365)"
proof -
  have "[1..12::int] = [1, 2, 3, 4, 5, 6, 7, 8, 9, 10, 11, 12]" by code_simp
  then show ?thesis by (simp add: days_before_month_def days_in_month_def)
qed

lemma days_before_year_mono:
  assumes "y1 < y2"
  shows "days_before_year y1 + (if is_leap y1 then 366 else 365) \<le> days_before_year y2"
proof -
  from assms have "y1 + 1 \<le> y2" by simp
  then show ?thesis
  proof (induction y2 rule: int_ge_induct)
    case base
    then show ?case by (simp add: days_before_year_step)
  next
    case (step k)
    have "days_before_year k \<le> days_before_year (k + 1)"
      by (simp add: days_before_year_step)
    with step.IH show ?case by linarith
  qed
qed

lemma date_within_year:
  assumes "valid_datetime a"
  shows "days_before_month (year a) (month a) + day a \<le> (if is_leap (year a) then 366 else 365)"
proof -
  from assms have m: "1 \<le> month a" "month a < 13"
    and d: "day a \<le> days_in_month (year a) (month a)"
    by (simp_all add: valid_datetime_def)
  from days_before_month_mono [OF m, of "year a"] d
  have "days_before_month (year a) (month a) + day a \<le> days_before_month (year a) 13"
    by linarith
  then show ?thesis by (simp only: days_before_month_13)
qed

lemma toordinal_less_year:
  assumes a: "valid_datetime a" and b: "valid_datetime b" and "year a < year b"
  shows "toordinal a < toordinal b"
proof -
  from b have db: "1 \<le> day b" by (simp add: valid_datetime_def)
  from days_before_year_mono [OF assms(3)] date_within_year [OF a]
  have "days_before_year (year a) + (days_before_month (year a) (month a) + day a)
      \<le> days_before_year (year b)"
    by linarith
  with days_before_month_nonneg [of "year b" "month b"] db show ?thesis
    unfolding toordinal_def by linarith
qed

lemma toordinal_less_month:
  assumes a: "valid_datetime a" and b: "valid_datetime b"
    and "year a = year b" and "month a < month b"
  shows "toordinal a < toordinal b"
proof -
  from a have m: "1 \<le> month a" and d: "day a \<le> days_in_month (year a) (month a)"
    by (simp_all add: valid_datetime_def)
  from b have db: "1 \<le> day b" by (simp add: valid_datetime_def)
  from days_before_month_mono [OF m assms(4), of "year a"] d db show ?thesis
    unfolding toordinal_def assms(3) [symmetric] by linarith
qed

lemma time_of_day_mono:
  fixes h1 m1 s1 u1 h2 m2 s2 u2 :: int
  assumes "lex_le [h1, m1, s1, u1] [h2, m2, s2, u2]"
    and "0 \<le> m1" "m1 < 60" "0 \<le> s1" "s1 < 60" "0 \<le> u1" "u1 < 1000000"
    and "0 \<le> m2" "m2 < 60" "0 \<le> s2" "s2 < 60" "0 \<le> u2" "u2 < 1000000"
  shows "((h1 * 60 + m1) * 60 + s1) * 1000000 + u1 \<le> ((h2 * 60 + m2) * 60 + s2) * 1000000 + u2"
  using assms by auto

lemma to_us_mono:
  assumes a: "valid_datetime a" and b: "valid_datetime b" and le: "datetime_le a b"
  shows "to_us a \<le> to_us b"
proof -
  from le consider "year a < year b"
    | "year a = year b" "month a < month b"
    | "year a = year b" "month a = month b" "day a < day b"
    | "year a = year b" "month a = month b" "day a = day b"
      "lex_le [hour a, minute a, second a, microsecond a]
              [hour b, minute b, second b, microsecond b]"
    by (auto simp: datetime_le_def)
  then consider "toordinal a < toordinal b"
    | "toordinal a = toordinal b"
      "lex_le [hour a, minute a, second a, microsecond a]
              [hour b, minute b, second b, microsecond b]"
  proof cases
    case 1
    with toordinal_less_year [OF a b] that show ?thesis by blast
  next
    case 2
    with toordinal_less_month [OF a b] that show ?thesis by blast
  next
    case 3
    then have "toordinal a < toordinal b" by (simp add: toordinal_def)
    with that show ?thesis by blast
  next
    case 4
    then have "toordinal a = toordinal b" by (simp add: toordinal_def)
    with 4 that show ?thesis by blast
  qed
  then show ?thesis
  proof cases
    case 1
    then have "toordinal a + 1 \<le> toordinal b" by simp
    with a b show ?thesis
      by (simp add: to_us_def valid_datetime_def)
  next
    case 2
    from time_of_day_mono [OF 2(2)] a b
    have "((hour a * 60 + minute a) * 60 + second a) * 1000000 + microsecond a
        \<le> ((hour b * 60 + minute b) * 60 + second b) * 1000000 + microsecond b"
      by (simp add: valid_datetime_def)
    with 2(1) show ?thesis
      unfolding to_us_def by (simp add: algebra_simps)
  qed
qed

lemma sorted_datetimes:
  assumes "list_all (\<lambda>r. valid_datetime (timestamp r)) rs"
    and "sorted_wrt (\<lambda>a b. datetime_le (timestamp a) (timestamp b)) rs"
  shows "sorted (map (\<lambda>r. to_us (timestamp r)) rs)"
proof -
  have "sorted_wrt (\<lambda>a b. to_us (timestamp a) \<le> to_us (timestamp b)) rs"
  proof (rule sorted_wrt_mono_rel [OF _ assms(2)])
    fix a b assume "a \<in> set rs" "b \<in> set rs"
      and "datetime_le (timestamp a) (timestamp b)"
    with assms(1) show "to_us (timestamp a) \<le> to_us (timestamp b)"
      by (intro to_us_mono) (simp_all add: list_all_iff)
  qed
  then show ?thesis by (simp add: sorted_map)
qed

text \<open>
  Claim C7. In every table that \<open>load_and_process_data\<close> returns: if the library's
  distance is never negative, \<open>cumulative_distance\<close> is non-decreasing, whatever the
  timestamps are; and if the timestamps of the rows, as \<open>datetime\<close> objects compared
  field by field, are non-decreasing in input order, \<open>duration_minutes\<close> is
  non-decreasing. (The same holds when the timestamps are non-decreasing as points on
  the time line.)
\<close>

theorem cumulative_and_elapsed_nondecreasing:
  assumes "load_and_process_data L t = Inr df"
  shows "((\<forall>p q d. geodesic_km L p q = Some d \<longrightarrow> 0 \<le> d)
            \<longrightarrow> sorted (cumulative_distance df))
       \<and> (list_all (\<lambda>r. valid_datetime (timestamp r)) (rows df)
            \<and> sorted_wrt (\<lambda>a b. datetime_le (timestamp a) (timestamp b)) (rows df)
            \<longrightarrow> sorted (duration_minutes df))
       \<and> (sorted (map (\<lambda>r. to_us (timestamp r)) (rows df))
            \<longrightarrow> sorted (duration_minutes df))"
proof -
  from assms obtain rs where d: "derive L rs = Inr df" by (rule load_Inr)
  from d obtain r0 :: sample and ds where ds: "segment_distances L rs = Inr ds"
    and rows: "rows df = rs"
    and dur: "duration_minutes df = minutes_since (timestamp r0) rs"
    and cum: "cumulative_distance df = cumsum (0 # ds)"
    by (rule derive_Inr) blast
  have "sorted (cumulative_distance df)"
    if "\<forall>p q d. geodesic_km L p q = Some d \<longrightarrow> 0 \<le> d"
    unfolding cum using segment_distances_nonneg [OF that ds]
    by (intro sorted_cumsum) simp
  moreover have by_instant: "sorted (duration_minutes df)"
    if "sorted (map (\<lambda>r. to_us (timestamp r)) (rows df))"
    unfolding dur using that rows by (intro sorted_minutes_since) simp
  moreover have "sorted (duration_minutes df)"
    if "list_all (\<lambda>r. valid_datetime (timestamp r)) (rows df)"
      and "sorted_wrt (\<lambda>a b. datetime_le (timestamp a) (timestamp b)) (rows df)"
    using that by (intro by_instant sorted_datetimes)
  ultimately show ?thesis by blast
qed

lemma grid_km_nonneg: "grid_km p q = Some d \<Longrightarrow> 0 \<le> d"
  by (auto simp: grid_km_def split: prod.splits pyfloat.splits if_splits)

lemma lib0_nonneg: "\<forall>p q d. geodesic_km lib0 p q = Some d \<longrightarrow> 0 \<le> d"
  by (auto simp: lib0_def dest: grid_km_nonneg)

lemma load_journey_overnight:
  "load_and_process_data lib0 journey_overnight = Inr df_overnight"
  by code_simp

theorem cumulative_and_elapsed_nondecreasing_witness:
  "load_and_process_data lib0 journey_overnight = Inr df_overnight
   \<and> list_all (\<lambda>r. valid_datetime (timestamp r)) (rows df_overnight)
   \<and> sorted_wrt (\<lambda>a b. datetime_le (timestamp a) (timestamp b)) (rows df_overnight)
   \<and> map (\<lambda>r. date r) (rows df_overnight) = [(2024, 2, 29), (2024, 3, 1), (2025, 1, 1)]
   \<and> sorted (cumulative_distance df_overnight)
   \<and> cumulative_distance df_overnight = [0, 111 / 10, 111 / 5]
   \<and> sorted (duration_minutes df_overnight)
   \<and> duration_minutes df_overnight = [0, 10, 44065049 / 100]"
proof -
  have v: "list_all (\<lambda>r. valid_datetime (timestamp r)) (rows df_overnight)"
    by code_simp
  have o: "sorted_wrt (\<lambda>a b. datetime_le (timestamp a) (timestamp b)) (rows df_overnight)"
    by code_simp
  from cumulative_and_elapsed_nondecreasing [OF load_journey_overnight] lib0_nonneg v o
  have "sorted (cumulative_distance df_overnight)" and "sorted (duration_minutes df_overnight)"
    by blast+
  moreover have "cumulative_distance df_overnight = [0, 111 / 10, 111 / 5]"
    and "duration_minutes df_overnight = [0, 10, 44065049 / 100]"
    and "map (\<lambda>r. date r) (rows df_overnight) = [(2024, 2, 29), (2024, 3, 1), (2025, 1, 1)]"
    by (simp_all add: df_overnight_def make_record_def)
  ultimately show ?thesis
    using load_journey_overnight v o by blast
qed

subsection \<open>Speed pattern analysis\<close>

lemma set_filter_upt: "set (filter P [0..<n]) = {i. i < n \<and> P i}"
  by auto

lemma length_filter_upt: "length (filter P [0..<n]) = card {i. i < n \<and> P i}"
proof -
  have "distinct (filter P [0..<n])" by simp
  then have "card (set (filter P [0..<n])) = length (filter P [0..<n])"
    by (rule distinct_card)
  then show ?thesis by (simp add: set_filter_upt)
qed

lemma fgt_fadd_iff:
  "fgt (Fin x) (fadd a b) \<longleftrightarrow> (\<exists>m s. a = Fin m \<and> b = Fin s \<and> m + s < x) \<or>
     (a = NInf \<and> (b = NInf \<or> (\<exists>s. b = Fin s))) \<or> ((\<exists>m. a = Fin m) \<and> b = NInf)"
  by (cases a; cases b) (simp_all add: fgt_def)

lemma flt_fsub_iff:
  "flt (Fin x) (fsub a b) \<longleftrightarrow> (\<exists>m s. a = Fin m \<and> b = Fin s \<and> x < m - s) \<or>
     (a = PInf \<and> (b = NInf \<or> (\<exists>s. b = Fin s))) \<or> ((\<exists>m. a = Fin m) \<and> b = NInf)"
  by (cases a; cases b) (simp_all add: fsub_def)

lemma mean_cases: "mean xs = NaN \<or> (\<exists>m. mean xs = Fin m)"
  by (simp add: mean_def)

lemma std_cases: "std xs = NaN \<or> (\<exists>s. std xs = Fin s)"
  by (simp add: std_def Let_def)

lemma high_iff:
  "fgt (Fin x) (fadd (mean xs) (std xs)) \<longleftrightarrow>
     (\<exists>m s. mean xs = Fin m \<and> std xs = Fin s \<and> m + s < x)"
  using mean_cases [of xs] std_cases [of xs] by (auto simp: fgt_fadd_iff)

lemma low_iff:
  "flt (Fin x) (fsub (mean xs) (std xs)) \<longleftrightarrow>
     (\<exists>m s. mean xs = Fin m \<and> std xs = Fin s \<and> x < m - s)"
  using mean_cases [of xs] std_cases [of xs] by (auto simp: flt_fsub_iff)

text \<open>
  Claim C8. For every table, the rows selected as high-speed are exactly those whose
  speed is strictly greater than mean + standard deviation of the speed column, the rows
  selected as low-speed are exactly those whose speed is strictly less than mean -
  standard deviation, and the two numbers written out are the sizes of these two sets.
  (When the standard deviation is NaN no row is in either set.)
\<close>

theorem speed_pattern_classification:
  "set (high_speed_segments df) =
     {i. i < length (speed_kmh df) \<and>
         (\<exists>m s. mean (speed_kmh df) = Fin m \<and> speed_std df = Fin s \<and> m + s < speed_kmh df ! i)}
   \<and> set (low_speed_segments df) =
     {i. i < length (speed_kmh df) \<and>
         (\<exists>m s. mean (speed_kmh df) = Fin m \<and> speed_std df = Fin s \<and> speed_kmh df ! i < m - s)}
   \<and> speed_pattern_counts df =
     (card {i. i < length (speed_kmh df) \<and>
         (\<exists>m s. mean (speed_kmh df) = Fin m \<and> speed_std df = Fin s \<and> m + s < speed_kmh df ! i)},
      card {i. i < length (speed_kmh df) \<and>
         (\<exists>m s. mean (speed_kmh df) = Fin m \<and> speed_std df = Fin s \<and> speed_kmh df ! i < m - s)})"
  unfolding speed_pattern_counts_def high_speed_segments_def low_speed_segments_def
    speed_std_def high_iff low_iff set_filter_upt length_filter_upt
  by simp

lemma mean_df4: "mean (speed_kmh df4) = Fin (333 / 20)"
  by (simp add: mean_def df4_def)

lemma std_df4: "speed_std df4 = Fin (333 / 10)"
proof -
  have "sqrt (110889 / 100) = 333 / 10"
    by (rule real_sqrt_unique) (simp_all add: power2_eq_square)
  then show ?thesis
    by (simp add: speed_std_def std_def df4_def power2_eq_square)
qed

lemma high_df4: "high_speed_segments df4 = [3]"
  using mean_df4 std_df4
  by (simp add: high_speed_segments_def fgt_def) (simp add: df4_def upt_conv_Cons)

lemma low_df4: "low_speed_segments df4 = []"
  using mean_df4 std_df4
  by (simp add: low_speed_segments_def fsub_def) (simp add: df4_def upt_conv_Cons)

theorem speed_pattern_classification_witness:
  "load_and_process_data lib0 journey4 = Inr df4
   \<and> speed_kmh df4 = [0, 0, 0, 333 / 5]
   \<and> mean (speed_kmh df4) = Fin (333 / 20) \<and> speed_std df4 = Fin (333 / 10)
   \<and> {i. i < length (speed_kmh df4) \<and>
         (\<exists>m s. mean (speed_kmh df4) = Fin m \<and> speed_std df4 = Fin s
            \<and> m + s < speed_kmh df4 ! i)} = {3}
   \<and> {i. i < length (speed_kmh df4) \<and>
         (\<exists>m s. mean (speed_kmh df4) = Fin m \<and> speed_std df4 = Fin s
            \<and> speed_kmh df4 ! i < m - s)} = {}
   \<and> speed_pattern_counts df4 = (1, 0)"
proof -
  note T = speed_pattern_classification [of df4]
  from T have "{i. i < length (speed_kmh df4) \<and>
         (\<exists>m s. mean (speed_kmh df4) = Fin m \<and> speed_std df4 = Fin s
            \<and> m + s < speed_kmh df4 ! i)} = {3}"
    by (simp add: high_df4)
  moreover from T have "{i. i < length (speed_kmh df4) \<and>
         (\<exists>m s. mean (speed_kmh df4) = Fin m \<and> speed_std df4 = Fin s
            \<and> speed_kmh df4 ! i < m - s)} = {}"
    by (simp add: low_df4)
  moreover have "speed_pattern_counts df4 = (1, 0)"
    by (simp add: speed_pattern_counts_def high_df4 low_df4)
  moreover have "speed_kmh df4 = [0, 0, 0, 333 / 5]" by (simp add: df4_def)
  ultimately show ?thesis
    using load_journey4 mean_df4 std_df4 by blast
qed

subsection \<open>The standard deviation\<close>

lemma fadd_NaN_right [simp]: "fadd a NaN = NaN"
  by (cases a) simp_all

lemma flt_NaN_right [simp]: "flt a NaN = False"
  by (cases a) simp_all

lemma std_single: "length xs < 2 \<Longrightarrow> std xs = NaN"
  by (simp add: std_def)

lemma std_sample:
  assumes "2 \<le> length xs"
  shows "\<exists>s. std xs = Fin s \<and> 0 \<le> s
    \<and> s\<^sup>2 * real (length xs - 1) = (\<Sum>x \<leftarrow> xs. (x - sum_list xs / real (length xs))\<^sup>2)"
proof -
  define m where "m = sum_list xs / real (length xs)"
  define v where "v = (\<Sum>x \<leftarrow> xs. (x - m)\<^sup>2) / real (length xs - 1)"
  have "0 \<le> (\<Sum>x \<leftarrow> xs. (x - m)\<^sup>2)"
    by (rule sum_list_nonneg) auto
  then have v0: "0 \<le> v" by (simp add: v_def)
  from assms have n: "real (length xs - 1) \<noteq> 0" by simp
  have "std xs = Fin (sqrt v)"
    using assms by (simp add: std_def Let_def v_def m_def)
  moreover have "0 \<le> sqrt v" using v0 by simp
  moreover have "(sqrt v)\<^sup>2 * real (length xs - 1) = (\<Sum>x \<leftarrow> xs. (x - m)\<^sup>2)"
    using v0 n by (simp add: v_def)
  ultimately show ?thesis unfolding m_def by blast
qed

text \<open>
  Claim C10. The standard deviation that the speed pattern analysis uses is the sample
  standard deviation: for a journey of at least two records its square times \<open>n - 1\<close>
  is the sum of the squared deviations from the mean. For a journey of exactly one
  record it is NaN, and the high-speed and low-speed counts are both 0.
\<close>

theorem speed_std_is_sample_std:
  assumes "load_and_process_data L t = Inr df"
  shows "(length (rows df) = 1 \<longrightarrow>
            speed_std df = NaN \<and> speed_pattern_counts df = (0, 0))
       \<and> (2 \<le> length (rows df) \<longrightarrow>
            (\<exists>s. speed_std df = Fin s \<and> 0 \<le> s
               \<and> s\<^sup>2 * real (length (rows df) - 1) =
                   (\<Sum>x \<leftarrow> speed_kmh df.
                      (x - sum_list (speed_kmh df) / real (length (rows df)))\<^sup>2)))"
proof -
  have len: "length (speed_kmh df) = length (rows df)"
    using load_lengths [OF assms] by simp
  have "speed_std df = NaN \<and> speed_pattern_counts df = (0, 0)"
    if "length (rows df) = 1"
  proof -
    from that len have "speed_std df = NaN"
      by (simp add: speed_std_def std_single)
    then show ?thesis
      by (simp add: speed_pattern_counts_def high_speed_segments_def
          low_speed_segments_def fgt_def fsub_def)
  qed
  moreover have "\<exists>s. speed_std df = Fin s \<and> 0 \<le> s
      \<and> s\<^sup>2 * real (length (rows df) - 1) =
          (\<Sum>x \<leftarrow> speed_kmh df. (x - sum_list (speed_kmh df) / real (length (rows df)))\<^sup>2)"
    if "2 \<le> length (rows df)"
    using std_sample [of "speed_kmh df"] that len by (simp add: speed_std_def)
  ultimately show ?thesis by blast
qed

theorem speed_std_is_sample_std_witness:
  "load_and_process_data lib0 journey1 = Inr df1 \<and> length (rows df1) = 1
   \<and> speed_std df1 = NaN \<and> speed_pattern_counts df1 = (0, 0)
   \<and> load_and_process_data lib0 journey4 = Inr df4 \<and> length (rows df4) = 4
   \<and> speed_std df4 = Fin (333 / 10)
   \<and> (333 / 10)\<^sup>2 * real (4 - 1) =
       (\<Sum>x \<leftarrow> speed_kmh df4. (x - sum_list (speed_kmh df4) / real 4)\<^sup>2)"
proof -
  have n1: "length (rows df1) = 1" by (simp add: df1_def)
  have n4: "length (rows df4) = 4" by (simp add: df4_def)
  from speed_std_is_sample_std [OF load_journey1] n1
  have one: "speed_std df1 = NaN \<and> speed_pattern_counts df1 = (0, 0)"
    by blast
  from speed_std_is_sample_std [OF load_journey4] n4
  obtain s where s: "speed_std df4 = Fin s"
    and sq: "s\<^sup>2 * real (length (rows df4) - 1) =
       (\<Sum>x \<leftarrow> speed_kmh df4. (x - sum_list (speed_kmh df4) / real (length (rows df4)))\<^sup>2)"
    by auto
  from s std_df4 have "s = 333 / 10" by simp
  with sq n4 have "(333 / 10)\<^sup>2 * real (4 - 1) =
       (\<Sum>x \<leftarrow> speed_kmh df4. (x - sum_list (speed_kmh df4) / real 4)\<^sup>2)"
    by simp
  with one n1 n4 load_journey1 load_journey4 std_df4 show ?thesis by blast
qed

subsection \<open>Route efficiency on a route of length zero\<close>

lemma fold_max_sorted:
  assumes "sorted (x # ys)"
  shows "fold max ys x = last (x # ys)"
proof -
  have "fold max ys x = Max (set (x # ys))"
    by (rule Max.set_eq_fold [symmetric])
  also have "\<dots> = last (x # ys)"
  proof (rule Max_eqI)
    show "finite (set (x # ys))" by simp
    show "last (x # ys) \<in> set (x # ys)" by (rule last_in_set) simp
    fix y assume "y \<in> set (x # ys)"
    then obtain i where i: "i < length (x # ys)" and y: "y = (x # ys) ! i"
      by (metis in_set_conv_nth)
    have "(x # ys) ! i \<le> (x # ys) ! (length (x # ys) - 1)"
      using assms i by (intro sorted_nth_mono) simp_all
    also have "\<dots> = last (x # ys)"
      by (rule last_conv_nth [symmetric]) simp
    finally show "y \<le> last (x # ys)"
      unfolding y .
  qed
  finally show ?thesis .
qed

lemma col_max_sorted:
  "sorted xs \<Longrightarrow> xs \<noteq> [] \<Longrightarrow> col_max xs = Fin (last xs)"
  by (cases xs) (simp_all add: col_max_def fold_max_sorted del: sorted_wrt.simps)

text \<open>
  Claim C1, as the code has it. The program has no \<open>DegenerateRouteError\<close> and no
  not-applicable result. When the cumulative distance of the last record is 0 and the
  library's distance is never negative, the route efficiency analysis still divides:
  unless the library call for the straight-line distance raises \<open>ValueError\<close>, the score
  is NaN when the straight-line distance is 0 (as it is for a single sample) and
  infinity otherwise; in both cases the advice for scores below 0.8 is not given.
\<close>

theorem route_efficiency_zero_distance:
  assumes "load_and_process_data L t = Inr df"
    and "\<forall>p q d. geodesic_km L p q = Some d \<longrightarrow> 0 \<le> d"
    and "last (cumulative_distance df) = 0"
  shows "route_efficiency L df =
           (case geodesic_km L (coords_of (hd (rows df))) (coords_of (last (rows df))) of
              None \<Rightarrow> Inl ValueError
            | Some s \<Rightarrow> Inr (if s = 0 then NaN else PInf))
       \<and> route_efficiency L df \<noteq> Inl DegenerateRouteError
       \<and> (\<forall>v. route_efficiency L df = Inr v \<longrightarrow> \<not> is_finite v \<and> \<not> route_advice v)"
proof -
  have nonempty: "rows df \<noteq> []" and len: "cumulative_distance df \<noteq> []"
    using load_lengths [OF assms(1)] by auto
  have "sorted (cumulative_distance df)"
  proof -
    from assms(1) obtain rs where d: "derive L rs = Inr df" by (rule load_Inr)
    from d obtain r0 :: sample and ds where ds: "segment_distances L rs = Inr ds"
      and cum: "cumulative_distance df = cumsum (0 # ds)"
      by (rule derive_Inr) blast
    show ?thesis
      unfolding cum using segment_distances_nonneg [OF assms(2) ds]
      by (intro sorted_cumsum) simp
  qed
  with len assms(3) have cmax: "col_max (cumulative_distance df) = Fin 0"
    by (simp add: col_max_sorted)
  have first: "iloc_first (rows df) = Inr (hd (rows df))"
    using nonempty by (cases "rows df") (simp_all add: iloc_first_def)
  have lst: "iloc_last (rows df) = Inr (last (rows df))"
    using nonempty by (simp add: iloc_last_def)
  have eq: "route_efficiency L df =
      (case geodesic_km L (coords_of (hd (rows df))) (coords_of (last (rows df))) of
         None \<Rightarrow> Inl ValueError
       | Some s \<Rightarrow> Inr (if s = 0 then NaN else PInf))"
  proof (cases "geodesic_km L (coords_of (hd (rows df))) (coords_of (last (rows df)))")
    case None
    then show ?thesis
      by (simp add: route_efficiency_def first lst lib_call_def)
  next
    case (Some s)
    with assms(2) have "0 \<le> s" by blast
    with Some show ?thesis
      by (simp add: route_efficiency_def first lst lib_call_def cmax)
  qed
  then show ?thesis
    by (auto simp: is_finite_def route_advice_def split: option.splits if_splits)
qed

theorem route_efficiency_zero_distance_witness:
  "load_and_process_data lib0 journey1 = Inr df1
   \<and> last (cumulative_distance df1) = 0
   \<and> geodesic_km lib0 (coords_of (hd (rows df1))) (coords_of (last (rows df1))) = Some 0
   \<and> route_efficiency lib0 df1 = Inr NaN
   \<and> \<not> is_finite NaN \<and> \<not> route_advice NaN"
proof -
  have z: "last (cumulative_distance df1) = 0" by (simp add: df1_def)
  have g: "geodesic_km lib0 (coords_of (hd (rows df1))) (coords_of (last (rows df1))) = Some 0"
    by (simp add: df1_def lib0_def grid_km_def coords_of_def make_record_def)
  from route_efficiency_zero_distance [OF load_journey1 lib0_nonneg z] g
  have r: "route_efficiency lib0 df1 = Inr NaN"
    and "\<forall>v. route_efficiency lib0 df1 = Inr v \<longrightarrow> \<not> is_finite v \<and> \<not> route_advice v"
    by simp_all
  then have "\<not> is_finite NaN \<and> \<not> route_advice NaN" by blast
  with r z g load_journey1 show ?thesis by blast
qed

text \<open>
  Claim C1, as stated, fails for a journey of a single sample: the cumulative distance
  of its only record is 0, and the route efficiency analysis raises nothing and returns
  the float NaN.
\<close>

theorem route_efficiency_single_sample_counterexample:
  "load_and_process_data lib0 journey1 = Inr df1
   \<and> cumulative_distance df1 = [0]
   \<and> route_efficiency lib0 df1 = Inr NaN
   \<and> route_efficiency lib0 df1 \<noteq> Inl DegenerateRouteError"
proof -
  have "route_efficiency lib0 df1 = Inr NaN" by code_simp
  moreover have "cumulative_distance df1 = [0]" by (simp add: df1_def)
  ultimately show ?thesis using load_journey1 by simp
qed

subsection \<open>What the parser raises\<close>

lemma item_eq_Inl: "item xs i = Inl e \<longleftrightarrow> length xs \<le> i \<and> e = IndexError"
  by (auto simp: item_def)

lemma item_eq_Inr: "item xs i = Inr v \<longleftrightarrow> i < length xs \<and> v = xs ! i"
  by (auto simp: item_def)

lemma parse_line_error:
  "parse_line L l = Inl e \<Longrightarrow> e = IndexError \<or> e = ValueError"
  by (auto simp: parse_line_def Let_def bind_eq_Inl item_eq_Inl lib_call_eq_Inl)

lemma parse_lines_error:
  "parse_lines L ls = Inl e \<Longrightarrow> e = IndexError \<or> e = ValueError"
proof (induction ls)
  case Nil
  then show ?case by simp
next
  case (Cons l ls)
  then show ?case
    by (auto simp: bind_eq_Inl dest: parse_line_error)
qed

lemma segment_distances_error:
  "segment_distances L rs = Inl e \<Longrightarrow> e = ValueError"
proof (induction rs)
  case Nil
  then show ?case by simp
next
  case (Cons r1 rs)
  then show ?case
    by (cases rs) (auto simp: bind_eq_Inl lib_call_eq_Inl)
qed

lemma derive_error:
  "derive L rs = Inl e \<Longrightarrow> rs \<noteq> [] \<Longrightarrow> e = ValueError"
  by (cases rs)
     (auto simp: derive_def duration_column_def distance_column_def bind_eq_Inl
           dest: segment_distances_error)

lemma load_error:
  assumes "load_and_process_data L t = Inl e"
  shows "e = IndexError \<or> e = ValueError"
proof -
  from assms consider "parse_lines L (split NL (strip t)) = Inl e"
    | rs where "parse_lines L (split NL (strip t)) = Inr rs" "derive L rs = Inl e"
    by (auto simp: load_and_process_data_def bind_eq_Inl)
  then show ?thesis
  proof cases
    case 1
    then show ?thesis by (rule parse_lines_error)
  next
    case 2
    from parse_lines_length [OF 2(1)] have "rs \<noteq> []"
      using split_not_Nil [of NL "strip t"] by auto
    with 2(2) show ?thesis by (auto dest: derive_error)
  qed
qed

lemma parse_line_short:
  assumes "length (split TAB l) < 4"
  shows "\<exists>e. parse_line L l = Inl e"
proof (cases "parse_line L l")
  case (Inl e)
  then show ?thesis by blast
next
  case (Inr r)
  then have "3 < length (split TAB l)"
    by (auto simp: parse_line_def Let_def bind_eq_Inr item_eq_Inr)
  with assms show ?thesis by simp
qed

lemma parse_line_no_fields:
  "length (split TAB l) < 2 \<Longrightarrow> parse_line L l = Inl IndexError"
  by (simp add: parse_line_def Let_def item_def)

lemma parse_line_bad_timestamp:
  "2 \<le> length (split TAB l) \<Longrightarrow> strptime L (split TAB l ! 1) = None \<Longrightarrow>
   parse_line L l = Inl ValueError"
  by (simp add: parse_line_def Let_def item_def lib_call_def)

lemma parse_lines_all:
  "parse_lines L ls = Inr rs \<Longrightarrow> l \<in> set ls \<Longrightarrow> \<exists>r. parse_line L l = Inr r"
  by (metis in_set_conv_nth parse_lines_nth)

lemma load_fails_on_bad_line:
  assumes "l \<in> set (split NL (strip t))" and "parse_line L l = Inl e"
  shows "load_and_process_data L t = Inl IndexError \<or> load_and_process_data L t = Inl ValueError"
proof (cases "load_and_process_data L t")
  case (Inl e')
  with load_error [OF Inl] show ?thesis by auto
next
  case (Inr df)
  then obtain rs where "parse_lines L (split NL (strip t)) = Inr rs" by (rule load_Inr)
  from parse_lines_all [OF this assms(1)] assms(2) show ?thesis by simp
qed

lemma load_first_line:
  assumes "parse_line L (hd (split NL (strip t))) = Inl e"
  shows "load_and_process_data L t = Inl e"
proof -
  obtain l ls where "split NL (strip t) = l # ls"
    using split_not_Nil [of NL "strip t"] by (cases "split NL (strip t)") auto
  with assms show ?thesis
    by (simp add: load_and_process_data_def)
qed

lemma parse_line_result:
  "parse_line L l =
     (if length (parts l) < 2 then Inl IndexError
      else (case strptime L (parts l ! 1) of
        None \<Rightarrow> Inl ValueError
      | Some ts \<Rightarrow>
         (if length (parts l) < 3 then Inl IndexError
          else (case to_float L (parts l ! 2) of
            None \<Rightarrow> Inl ValueError
          | Some lat \<Rightarrow>
             (if length (parts l) < 4 then Inl IndexError
              else (case to_float L (parts l ! 3) of
                None \<Rightarrow> Inl ValueError
              | Some lon \<Rightarrow> Inr (make_record ts lat lon)))))))"
  by (simp add: parse_line_def parts_def Let_def item_def lib_call_def split: option.splits)

lemma parse_lines_first_error:
  assumes "i < length ls"
    and "\<forall>j < i. \<exists>r. parse_line L (ls ! j) = Inr r"
    and "parse_line L (ls ! i) = Inl e"
  shows "parse_lines L ls = Inl e"
  using assms
proof (induction ls arbitrary: i)
  case Nil
  then show ?case by simp
next
  case (Cons l ls)
  show ?case
  proof (cases i)
    case 0
    with Cons.prems show ?thesis by simp
  next
    case (Suc k)
    with Cons.prems(2) obtain r where r: "parse_line L l = Inr r" by fastforce
    have "\<forall>j < k. \<exists>r. parse_line L (ls ! j) = Inr r"
    proof (intro allI impI)
      fix j assume "j < k"
      then have "Suc j < i" by (simp add: Suc)
      with Cons.prems(2) show "\<exists>r. parse_line L (ls ! j) = Inr r" by fastforce
    qed
    moreover from Cons.prems Suc have "k < length ls" and "parse_line L (ls ! k) = Inl e"
      by simp_all
    ultimately have "parse_lines L ls = Inl e" by (intro Cons.IH)
    with r show ?thesis by simp
  qed
qed

lemma load_first_error:
  assumes "i < length (lines t)"
    and "\<forall>j < i. \<exists>r. parse_line L (lines t ! j) = Inr r"
    and "parse_line L (lines t ! i) = Inl e"
  shows "load_and_process_data L t = Inl e"
  using parse_lines_first_error [OF assms]
  by (simp add: load_and_process_data_def lines_def)

text \<open>
  Claim C4, as the code has it. The program defines no \<open>MalformedRecordError\<close> and no
  \<open>EmptyJourneyError\<close>; what it raises is \<open>IndexError\<close> or \<open>ValueError\<close>, and the error
  is that of the first line that fails, at the first step that fails there, in the order
  \<open>parts[1]\<close>, \<open>strptime\<close>, \<open>parts[2]\<close>, \<open>float\<close>, \<open>parts[3]\<close>, \<open>float\<close>.
  \<^item> A text that is empty after stripping fails with \<open>IndexError\<close>.
  \<^item> A text with a line of fewer than 4 tab-separated fields, or with a line whose
    timestamp \<open>strptime\<close> rejects, fails with \<open>IndexError\<close> or \<open>ValueError\<close>.
  \<^item> When the lines before it parse, a line of fewer than 4 fields fails with
    \<open>IndexError\<close> if the fields before the missing one parse, and with \<open>ValueError\<close> if
    its timestamp or its latitude does not; and a line of at least 2 fields whose
    timestamp \<open>strptime\<close> rejects fails with \<open>ValueError\<close>.
\<close>

theorem parse_failures:
  "(strip t = [] \<longrightarrow> load_and_process_data L t = Inl IndexError)
   \<and> ((\<exists>l \<in> set (lines t). length (parts l) < 4 \<or> strptime L (parts l ! 1) = None)
        \<longrightarrow> load_and_process_data L t = Inl IndexError
          \<or> load_and_process_data L t = Inl ValueError)
   \<and> (\<forall>i < length (lines t).
         (\<forall>j < i. \<exists>r. parse_line L (lines t ! j) = Inr r) \<longrightarrow>
           (length (parts (lines t ! i)) < 2
              \<longrightarrow> load_and_process_data L t = Inl IndexError)
         \<and> (2 \<le> length (parts (lines t ! i))
              \<and> strptime L (parts (lines t ! i) ! 1) = None
              \<longrightarrow> load_and_process_data L t = Inl ValueError)
         \<and> (length (parts (lines t ! i)) = 2
              \<and> strptime L (parts (lines t ! i) ! 1) \<noteq> None
              \<longrightarrow> load_and_process_data L t = Inl IndexError)
         \<and> (3 \<le> length (parts (lines t ! i))
              \<and> strptime L (parts (lines t ! i) ! 1) \<noteq> None
              \<and> to_float L (parts (lines t ! i) ! 2) = None
              \<longrightarrow> load_and_process_data L t = Inl ValueError)
         \<and> (length (parts (lines t ! i)) = 3
              \<and> strptime L (parts (lines t ! i) ! 1) \<noteq> None
              \<and> to_float L (parts (lines t ! i) ! 2) \<noteq> None
              \<longrightarrow> load_and_process_data L t = Inl IndexError)
         \<and> (4 \<le> length (parts (lines t ! i))
              \<and> strptime L (parts (lines t ! i) ! 1) \<noteq> None
              \<and> to_float L (parts (lines t ! i) ! 2) \<noteq> None
              \<and> to_float L (parts (lines t ! i) ! 3) = None
              \<longrightarrow> load_and_process_data L t = Inl ValueError))
   \<and> load_and_process_data L t \<noteq> Inl MalformedRecordError
   \<and> load_and_process_data L t \<noteq> Inl EmptyJourneyError"
proof -
  have empty: "load_and_process_data L t = Inl IndexError" if "strip t = []"
    using that by (intro load_first_line) (simp add: parse_line_no_fields)
  have bad: "load_and_process_data L t = Inl IndexError
      \<or> load_and_process_data L t = Inl ValueError"
    if l: "l \<in> set (lines t)"
      and b: "length (parts l) < 4 \<or> strptime L (parts l ! 1) = None" for l
  proof -
    have "\<exists>e. parse_line L l = Inl e"
      using b by (auto simp: parse_line_result split: option.splits)
    with l show ?thesis
      unfolding lines_def by (blast dest: load_fails_on_bad_line)
  qed
  have first: "(length (parts (lines t ! i)) < 2
              \<longrightarrow> load_and_process_data L t = Inl IndexError)
         \<and> (2 \<le> length (parts (lines t ! i))
              \<and> strptime L (parts (lines t ! i) ! 1) = None
              \<longrightarrow> load_and_process_data L t = Inl ValueError)
         \<and> (length (parts (lines t ! i)) = 2
              \<and> strptime L (parts (lines t ! i) ! 1) \<noteq> None
              \<longrightarrow> load_and_process_data L t = Inl IndexError)
         \<and> (3 \<le> length (parts (lines t ! i))
              \<and> strptime L (parts (lines t ! i) ! 1) \<noteq> None
              \<and> to_float L (parts (lines t ! i) ! 2) = None
              \<longrightarrow> load_and_process_data L t = Inl ValueError)
         \<and> (length (parts (lines t ! i)) = 3
              \<and> strptime L (parts (lines t ! i) ! 1) \<noteq> None
              \<and> to_float L (parts (lines t ! i) ! 2) \<noteq> None
              \<longrightarrow> load_and_process_data L t = Inl IndexError)
         \<and> (4 \<le> length (parts (lines t ! i))
              \<and> strptime L (parts (lines t ! i) ! 1) \<noteq> None
              \<and> to_float L (parts (lines t ! i) ! 2) \<noteq> None
              \<and> to_float L (parts (lines t ! i) ! 3) = None
              \<longrightarrow> load_and_process_data L t = Inl ValueError)"
    if i: "i < length (lines t)"
      and before: "\<forall>j < i. \<exists>r. parse_line L (lines t ! j) = Inr r" for i
  proof -
    have err: "load_and_process_data L t = Inl e" if "parse_line L (lines t ! i) = Inl e" for e
      using i before that by (rule load_first_error)
    show ?thesis
      by (intro conjI impI err) (auto simp: parse_line_result)
  qed
  have no: "load_and_process_data L t \<noteq> Inl MalformedRecordError
      \<and> load_and_process_data L t \<noteq> Inl EmptyJourneyError"
    using load_error [of L t] by auto
  from empty bad first no show ?thesis by blast
qed

lemma load_three_fields: "load_and_process_data lib0 three_fields = Inl IndexError"
  by code_simp

lemma load_bad_timestamp: "load_and_process_data lib0 bad_timestamp = Inl ValueError"
  by code_simp

lemma load_empty: "load_and_process_data lib0 [] = Inl IndexError"
  by code_simp

theorem parse_failures_witness:
  "strip [] = ([] :: pystr) \<and> load_and_process_data lib0 [] = Inl IndexError
   \<and> lines three_fields = [three_fields] \<and> length (parts three_fields) = 3
   \<and> strptime lib0 (parts three_fields ! 1) \<noteq> None
   \<and> to_float lib0 (parts three_fields ! 2) \<noteq> None
   \<and> load_and_process_data lib0 three_fields = Inl IndexError
   \<and> lines three_fields_bad_latitude = [three_fields_bad_latitude]
   \<and> length (parts three_fields_bad_latitude) = 3
   \<and> strptime lib0 (parts three_fields_bad_latitude ! 1) \<noteq> None
   \<and> to_float lib0 (parts three_fields_bad_latitude ! 2) = None
   \<and> load_and_process_data lib0 three_fields_bad_latitude = Inl ValueError
   \<and> length (lines bad_second_line) = 2
   \<and> parse_line lib0 (lines bad_second_line ! 0) = Inr (rows df3 ! 0)
   \<and> length (parts (lines bad_second_line ! 1)) = 4
   \<and> strptime lib0 (parts (lines bad_second_line ! 1) ! 1) = None
   \<and> load_and_process_data lib0 bad_second_line = Inl ValueError"
proof -
  have e: "strip [] = ([] :: pystr)" by (simp add: strip_def)
  from parse_failures [of "[]" lib0] e
  have r0: "load_and_process_data lib0 [] = Inl IndexError" by blast

  have a1: "lines three_fields = [three_fields]" by code_simp
  have a2: "length (parts three_fields) = 3" by code_simp
  have a3: "strptime lib0 (parts three_fields ! 1) \<noteq> None" by code_simp
  have a4: "to_float lib0 (parts three_fields ! 2) \<noteq> None" by code_simp
  from parse_failures [of three_fields lib0]
  have "\<forall>i < length (lines three_fields).
      (\<forall>j < i. \<exists>r. parse_line lib0 (lines three_fields ! j) = Inr r) \<longrightarrow>
      (length (parts (lines three_fields ! i)) = 3
        \<and> strptime lib0 (parts (lines three_fields ! i) ! 1) \<noteq> None
        \<and> to_float lib0 (parts (lines three_fields ! i) ! 2) \<noteq> None
        \<longrightarrow> load_and_process_data lib0 three_fields = Inl IndexError)"
    by blast
  from this [rule_format, of 0] a1 a2 a3 a4
  have r3: "load_and_process_data lib0 three_fields = Inl IndexError" by simp

  have b1: "lines three_fields_bad_latitude = [three_fields_bad_latitude]" by code_simp
  have b2: "length (parts three_fields_bad_latitude) = 3" by code_simp
  have b3: "strptime lib0 (parts three_fields_bad_latitude ! 1) \<noteq> None" by code_simp
  have b4: "to_float lib0 (parts three_fields_bad_latitude ! 2) = None" by code_simp
  from parse_failures [of three_fields_bad_latitude lib0]
  have "\<forall>i < length (lines three_fields_bad_latitude).
      (\<forall>j < i. \<exists>r. parse_line lib0 (lines three_fields_bad_latitude ! j) = Inr r) \<longrightarrow>
      (3 \<le> length (parts (lines three_fields_bad_latitude ! i))
        \<and> strptime lib0 (parts (lines three_fields_bad_latitude ! i) ! 1) \<noteq> None
        \<and> to_float lib0 (parts (lines three_fields_bad_latitude ! i) ! 2) = None
        \<longrightarrow> load_and_process_data lib0 three_fields_bad_latitude = Inl ValueError)"
    by blast
  from this [rule_format, of 0] b1 b2 b3 b4
  have rl: "load_and_process_data lib0 three_fields_bad_latitude = Inl ValueError" by simp

  have c1: "length (lines bad_second_line) = 2" by code_simp
  have c2: "parse_line lib0 (lines bad_second_line ! 0) = Inr (rows df3 ! 0)" by code_simp
  have c3: "length (parts (lines bad_second_line ! 1)) = 4" by code_simp
  have c4: "strptime lib0 (parts (lines bad_second_line ! 1) ! 1) = None" by code_simp
  have before: "\<forall>j < 1. \<exists>r. parse_line lib0 (lines bad_second_line ! j) = Inr r"
    using c2 by simp
  from parse_failures [of bad_second_line lib0]
  have "\<forall>i < length (lines bad_second_line).
      (\<forall>j < i. \<exists>r. parse_line lib0 (lines bad_second_line ! j) = Inr r) \<longrightarrow>
      (2 \<le> length (parts (lines bad_second_line ! i))
        \<and> strptime lib0 (parts (lines bad_second_line ! i) ! 1) = None
        \<longrightarrow> load_and_process_data lib0 bad_second_line = Inl ValueError)"
    by blast
  from this [rule_format, of 1] c1 c3 c4 before
  have r2: "load_and_process_data lib0 bad_second_line = Inl ValueError" by simp

  from e r0 a1 a2 a3 a4 r3 b1 b2 b3 b4 rl c1 c2 c3 c4 r2 show ?thesis by blast
qed

text \<open>
  Claim C4, as stated, fails: a line with only three fields raises \<open>IndexError\<close>, the
  empty text raises \<open>IndexError\<close>, and a timestamp in another format raises
  \<open>ValueError\<close>; none of them is \<open>MalformedRecordError\<close> or \<open>EmptyJourneyError\<close>.
\<close>

theorem parse_failures_counterexample:
  "load_and_process_data lib0 three_fields = Inl IndexError
   \<and> load_and_process_data lib0 three_fields \<noteq> Inl MalformedRecordError
   \<and> load_and_process_data lib0 [] = Inl IndexError
   \<and> load_and_process_data lib0 [] \<noteq> Inl EmptyJourneyError
   \<and> load_and_process_data lib0 bad_timestamp = Inl ValueError
   \<and> load_and_process_data lib0 bad_timestamp \<noteq> Inl MalformedRecordError"
  by (simp add: load_three_fields load_bad_timestamp load_empty)

lemma strptime_accepts_short_fields:
  "strptime_impl (str ''2024-7-9 4:27:31.27'') =
     Some \<lparr>year = 2024, month = 7, day = 9, hour = 4, minute = 27, second = 31,
             microsecond = 270000\<rparr>"
  by code_simp

subsection \<open>One record per line\<close>

lemma parse_line_empty: "parse_line L [] = Inl IndexError"
  by (simp add: parse_line_def item_def)

text \<open>
  Claim C5, as the code has it. The program strips the whole text and splits it at
  newlines; it does not skip empty lines. Whenever it returns a table, no line of the
  stripped text is empty, the table has exactly one row per line, row \<open>i\<close> is the record
  parsed from line \<open>i\<close>, and every derived column has one entry per line.
\<close>

theorem one_record_per_line:
  assumes "load_and_process_data L t = Inr df"
  shows "length (rows df) = length (split NL (strip t))
       \<and> (\<forall>l \<in> set (split NL (strip t)). l \<noteq> [])
       \<and> length (rows df) = length (filter (\<lambda>l. l \<noteq> []) (split NL (strip t)))
       \<and> (\<forall>i < length (split NL (strip t)).
             parse_line L (split NL (strip t) ! i) = Inr (rows df ! i))
       \<and> length (duration_minutes df) = length (rows df)
       \<and> length (distance_km df) = length (rows df)
       \<and> length (cumulative_distance df) = length (rows df)
       \<and> length (speed_kmh df) = length (rows df)"
proof -
  from assms obtain rs where p: "parse_lines L (split NL (strip t)) = Inr rs"
    and d: "derive L rs = Inr df" by (rule load_Inr)
  from d obtain r0 rest ds where rows: "rows df = rs"
    by (rule derive_Inr)
  have nonempty: "\<forall>l \<in> set (split NL (strip t)). l \<noteq> []"
  proof
    fix l assume "l \<in> set (split NL (strip t))"
    from parse_lines_all [OF p this] show "l \<noteq> []"
      by (auto simp: parse_line_empty)
  qed
  then have "filter (\<lambda>l. l \<noteq> []) (split NL (strip t)) = split NL (strip t)"
    by simp
  moreover have "\<forall>i < length (split NL (strip t)).
      parse_line L (split NL (strip t) ! i) = Inr (rows df ! i)"
    using parse_lines_nth [OF p] by (simp add: rows)
  ultimately show ?thesis
    using load_lengths [OF assms] nonempty by simp
qed

lemma load_journey1_padded: "load_and_process_data lib0 journey1_padded = Inr df1"
  by code_simp

theorem one_record_per_line_witness:
  "load_and_process_data lib0 journey3 = Inr df3
   \<and> length (split NL (strip journey3)) = 3
   \<and> length (rows df3) = 3
   \<and> parse_line lib0 (split NL (strip journey3) ! 2) = Inr (rows df3 ! 2)
   \<and> latitude (rows df3 ! 2) = Fin (301 / 10)
   \<and> load_and_process_data lib0 journey1_padded = Inr df1
   \<and> split NL (strip journey1_padded) = [journey1]
   \<and> length (rows df1) = 1"
proof -
  have n: "length (split NL (strip journey3)) = 3" by code_simp
  from one_record_per_line [OF load_journey3] n
  have "length (rows df3) = 3"
    and "parse_line lib0 (split NL (strip journey3) ! 2) = Inr (rows df3 ! 2)"
    by simp_all
  moreover have "latitude (rows df3 ! 2) = Fin (301 / 10)"
    by (simp add: df3_def make_record_def)
  moreover have p: "split NL (strip journey1_padded) = [journey1]" by code_simp
  moreover from one_record_per_line [OF load_journey1_padded] p
  have "length (rows df1) = 1" by simp
  ultimately show ?thesis using load_journey3 load_journey1_padded n by simp
qed

text \<open>
  Claim C5, as stated, fails: a text of two well-formed lines with an empty line between
  them has two non-empty lines, yet the program raises \<open>IndexError\<close> at the empty line
  instead of returning two records.
\<close>

theorem empty_line_counterexample:
  "split NL (strip blank_between) =
     [str ''a'' @ [TAB] @ str ''2024-07-09 04:27:31.270921'' @ [TAB] @ str ''30.0'' @ [TAB] @ str ''-97.0'',
      [],
      str ''b'' @ [TAB] @ str ''2024-07-09 04:37:31.270921'' @ [TAB] @ str ''30.1'' @ [TAB] @ str ''-97.0'']
   \<and> load_and_process_data lib0 blank_between = Inl IndexError"
proof -
  have "split NL (strip blank_between) =
     [str ''a'' @ [TAB] @ str ''2024-07-09 04:27:31.270921'' @ [TAB] @ str ''30.0'' @ [TAB] @ str ''-97.0'',
      [],
      str ''b'' @ [TAB] @ str ''2024-07-09 04:37:31.270921'' @ [TAB] @ str ''30.1'' @ [TAB] @ str ''-97.0'']"
    by code_simp
  moreover have "load_and_process_data lib0 blank_between = Inl IndexError"
    by code_simp
  ultimately show ?thesis by simp
qed

end
